theory Spec2Isabelle
  imports Main "HOL-Library.Sublist"
begin

section \<open>The Oculus launcher service of bs-manager\<close>

text \<open>
  A shallow embedding of \<^verbatim>\<open>src/main/services/bs-launcher/oculus-launcher.service.ts\<close>.
  The service prepares the Oculus library for a requested Beat Saber version (restoring
  the original install, or redirecting the canonical install directory to a version
  managed by the application through a junction), starts the game and reports the
  outcome on an observable.

  Every asynchronous function of the source becomes a function from the filesystem
  state (and, where it waits for the discovery of the library, from the time at which it
  starts) to a result and the filesystem state it leaves; a rejected promise is the
  \<open>Inl\<close> of a sum. Collaborators whose code is outside this service (the Oculus service,
  the version repository, the process inspector, the process spawner and the constants
  module) are fields of an environment record.
\<close>

subsection \<open>Paths\<close>

text \<open>
  A path is the list of its components; the empty string is the path with no component.
  \<^verbatim>\<open>path.join\<close> concatenates its arguments and normalises the result lexically:
  \<^verbatim>\<open>.\<close> and empty components disappear, \<^verbatim>\<open>..\<close> removes the component before it (and
  is dropped at the root); a result with no component left reads \<^verbatim>\<open>.\<close>, never the empty
  string.
\<close>

type_synonym path = "string list"

fun normalize_path :: "path \<Rightarrow> path \<Rightarrow> path" where
  "normalize_path acc [] = rev acc"
| "normalize_path acc (c # cs) =
     (if c = ''..'' then normalize_path (case acc of [] \<Rightarrow> [] | _ # r \<Rightarrow> r) cs
      else if c = ''.'' \<or> c = [] then normalize_path acc cs
      else normalize_path (c # acc) cs)"

definition path_join :: "path list \<Rightarrow> path" where
  "path_join ps = (case normalize_path [] (concat ps) of [] \<Rightarrow> [''.''] | p \<Rightarrow> p)"

text \<open>A string or \<^verbatim>\<open>null\<close> in a condition (\<^verbatim>\<open>if(dirPath)\<close>, \<^verbatim>\<open>if(!bsFolder)\<close>): \<^verbatim>\<open>null\<close> and
  the empty string are falsy.\<close>

definition truthy :: "path option \<Rightarrow> bool" where
  "truthy p = (case p of None \<Rightarrow> False | Some q \<Rightarrow> q \<noteq> [])"

text \<open>A path as it reads in a message: its components, with the separator between them.\<close>

fun pathString :: "path \<Rightarrow> string" where
  "pathString [] = []"
| "pathString [c] = c"
| "pathString (c # d # cs) = c @ CHR 0x5C # pathString (d # cs)"

subsection \<open>Errors\<close>

text \<open>
  \<^verbatim>\<open>BSLaunchError\<close> lists the members of the enumeration that this service uses. A thrown
  value is either a plain \<^verbatim>\<open>Error\<close> with its message or a \<^verbatim>\<open>CustomError\<close>, which carries
  a code of the enumeration as well.
\<close>

datatype BSLaunchError =
  BS_NOT_FOUND | BS_ALREADY_RUNNING | BS_EXIT_ERROR | OCULUS_LIB_NOT_FOUND | UNKNOWN_ERROR

datatype exn = Error string | CustomError string BSLaunchError

fun message :: "exn \<Rightarrow> string" where
  "message (Error m) = m"
| "message (CustomError m c) = m"

fun isCustomError :: "exn \<Rightarrow> bool" where
  "isCustomError (Error m) = False"
| "isCustomError (CustomError m c) = True"

text \<open>
  Modelled from the spec: \<^verbatim>\<open>CustomError.fromError\<close> (shared/models/exceptions, not under
  src) reclassifies the originating error under the given code, keeping its message.
\<close>

definition fromError :: "exn \<Rightarrow> BSLaunchError \<Rightarrow> exn" where
  "fromError err code = CustomError (message err) code"

subsection \<open>The filesystem\<close>

text \<open>
  The filesystem is a table from absolute paths to nodes; the root is a directory that
  needs no entry. A junction stores the path it redirects to. The operations below are
  those of \<^verbatim>\<open>fs-extra\<close> that the service calls. Each normalises the path it is given,
  then walks it from the root, following every junction met on the way, at most
  \<open>SYMLOOP_MAX\<close> of them. The empty string names no entry.
\<close>

datatype node = File | Dir | Junction path

type_synonym fs = "(path \<times> node) list"

definition node_at :: "fs \<Rightarrow> path \<Rightarrow> node option" where
  "node_at fs p = (if p = [] then Some Dir else map_of fs p)"

fun canon :: "nat \<Rightarrow> fs \<Rightarrow> path \<Rightarrow> path \<Rightarrow> path option" where
  "canon n fs cur [] = Some cur"
| "canon n fs cur (c # cs) =
     (case map_of fs (cur @ [c]) of
        None \<Rightarrow> None
      | Some File \<Rightarrow> (if cs = [] then Some (cur @ [c]) else None)
      | Some Dir \<Rightarrow> canon n fs (cur @ [c]) cs
      | Some (Junction t) \<Rightarrow>
          (case n of 0 \<Rightarrow> None | Suc m \<Rightarrow> canon m fs [] (normalize_path [] (t @ cs))))"

definition SYMLOOP_MAX :: nat where
  "SYMLOOP_MAX = 40"

text \<open>\<open>realpath\<close> follows a junction in the last component too; \<open>lresolve\<close> does not (it
  gives the place of the entry itself, as \<^verbatim>\<open>lstat\<close> sees it).\<close>

definition realpath :: "fs \<Rightarrow> path \<Rightarrow> path option" where
  "realpath fs p = (if p = [] then None else canon SYMLOOP_MAX fs [] (normalize_path [] p))"

definition lresolve :: "fs \<Rightarrow> path \<Rightarrow> path option" where
  "lresolve fs p =
     (if p = [] then None
      else
        (case rev (normalize_path [] p) of
           [] \<Rightarrow> Some []
         | c # rparent \<Rightarrow>
             (case canon SYMLOOP_MAX fs [] (rev rparent) of
                None \<Rightarrow> None
              | Some d \<Rightarrow> (if node_at fs d = Some Dir then Some (d @ [c]) else None))))"

definition children :: "fs \<Rightarrow> path \<Rightarrow> string list" where
  "children fs d = remdups (map (\<lambda>(k, n). last k) (filter (\<lambda>(k, n). k \<noteq> [] \<and> butlast k = d) fs))"

text \<open>\<^verbatim>\<open>pathExists\<close> never rejects; on \<^verbatim>\<open>null\<close> and on the empty string it answers
  \<^verbatim>\<open>false\<close>.\<close>

definition pathExists :: "fs \<Rightarrow> path option \<Rightarrow> bool" where
  "pathExists fs p = (case p of None \<Rightarrow> False | Some q \<Rightarrow> realpath fs q \<noteq> None)"

definition readdir :: "fs \<Rightarrow> path \<Rightarrow> exn + string list" where
  "readdir fs p =
     (case realpath fs p of
        None \<Rightarrow> Inl (Error ''ENOENT'')
      | Some d \<Rightarrow> (if node_at fs d = Some Dir then Inr (children fs d) else Inl (Error ''ENOTDIR'')))"

text \<open>
  Modelled from the spec: \<^verbatim>\<open>isJunction\<close> (main/helpers/fs.helpers, not under src)
  identifies directory links: it is true exactly when the entry named by the path is a
  junction.
\<close>

definition isJunction :: "fs \<Rightarrow> path \<Rightarrow> bool" where
  "isJunction fs p =
     (case lresolve fs p of
        None \<Rightarrow> False
      | Some k \<Rightarrow> (case node_at fs k of Some (Junction t) \<Rightarrow> True | _ \<Rightarrow> False))"

text \<open>\<^verbatim>\<open>unlink\<close> removes a file or a link, never a directory.\<close>

definition unlink :: "fs \<Rightarrow> path \<Rightarrow> exn + fs" where
  "unlink fs p =
     (case lresolve fs p of
        None \<Rightarrow> Inl (Error ''ENOENT'')
      | Some k \<Rightarrow>
          (case node_at fs k of
             None \<Rightarrow> Inl (Error ''ENOENT'')
           | Some Dir \<Rightarrow> Inl (Error ''EPERM'')
           | Some _ \<Rightarrow> Inr (filter (\<lambda>(q, n). q \<noteq> k) fs)))"

text \<open>
  \<^verbatim>\<open>rename\<close> moves the entry and everything below it. The entries this service renames
  are directories; the platform refuses to rename one onto an existing entry.
\<close>

definition rekey :: "path \<Rightarrow> path \<Rightarrow> path \<Rightarrow> path" where
  "rekey ko kn k = (if prefix ko k then kn @ drop (length ko) k else k)"

definition rename :: "fs \<Rightarrow> path \<Rightarrow> path \<Rightarrow> exn + fs" where
  "rename fs old new =
     (case lresolve fs old of
        None \<Rightarrow> Inl (Error ''ENOENT'')
      | Some ko \<Rightarrow>
          (case lresolve fs new of
             None \<Rightarrow> Inl (Error ''ENOENT'')
           | Some kn \<Rightarrow>
               if ko = [] \<or> map_of fs ko = None then Inl (Error ''ENOENT'')
               else if node_at fs kn \<noteq> None then Inl (Error ''EPERM'')
               else if prefix ko kn then Inl (Error ''EINVAL'')
               else Inr (map (\<lambda>(k, n). (rekey ko kn k, n)) fs)))"

text \<open>\<^verbatim>\<open>symlink(target, path, "junction")\<close> refuses a path that is already taken.\<close>

definition symlink :: "fs \<Rightarrow> path \<Rightarrow> path \<Rightarrow> exn + fs" where
  "symlink fs target p =
     (case lresolve fs p of
        None \<Rightarrow> Inl (Error ''ENOENT'')
      | Some k \<Rightarrow>
          if node_at fs k \<noteq> None then Inl (Error ''EEXIST'')
          else Inr (fs @ [(k, Junction target)]))"

subsection \<open>Requests, events and collaborators\<close>

record BSVersion =
  BSVersion :: string
  oculus :: bool

record LaunchOption =
  version :: BSVersion
  additionalArgs :: "string list"

datatype BSLaunchEvent = BS_LAUNCHING

text \<open>A promise of a collaborator: settled, or not settled (a discovery that never
  answers, the game while it is still running).\<close>

datatype 'a promise = Resolved 'a | Rejected exn | Pending

record OculusLib =
  path :: path
  isDefault :: bool

text \<open>
  The collaborators and constants of the service. \<open>getGameFolder\<close> answers from the
  filesystem it is asked in; \<open>tryGetGameFolder\<close> and \<open>getOculusLibs\<close> are the two calls
  of the constructor, and \<open>fedAt\<close> is the time, in milliseconds on the clock of the
  application, at which their chain settles when it does.
\<close>

record env =
  OCULUS_BS_DIR :: string
  OCULUS_BS_BACKUP_DIR :: string
  BS_EXECUTABLE :: string
  tryGetGameFolder :: "string list \<Rightarrow> path option promise"
  getOculusLibs :: "OculusLib list option promise"
  fedAt :: int
  getGameFolder :: "fs \<Rightarrow> string \<Rightarrow> exn + path option"
  getInstalledVersionPath :: "BSVersion \<Rightarrow> exn + path"
  taskRunning :: "string \<Rightarrow> exn + bool"
  buildBsLaunchArgs :: "LaunchOption \<Rightarrow> string list"
  launchBs :: "path \<Rightarrow> string list \<Rightarrow> int promise"

subsection \<open>Library discovery\<close>

text \<open>
  The constructor feeds the replay subject \<^verbatim>\<open>oculusLib$\<close> once: with the parent of the
  game folder, else with the \<^verbatim>\<open>Software\<close> folder of the default library, else with
  \<^verbatim>\<open>null\<close>; a rejection is logged and feeds \<^verbatim>\<open>null\<close> too. \<open>None\<close> here means that
  nothing is ever fed. A game folder or a library path that is the empty string is
  falsy and passed over.
\<close>

definition oculusLib_subject :: "env \<Rightarrow> path option option" where
  "oculusLib_subject env =
     (case tryGetGameFolder env [OCULUS_BS_DIR env, OCULUS_BS_BACKUP_DIR env] of
        Pending \<Rightarrow> None
      | Rejected err \<Rightarrow> Some None
      | Resolved dirPath \<Rightarrow>
          if truthy dirPath then Some (Some (path_join [the dirPath, [''..'']]))
          else
            (case getOculusLibs env of
               Pending \<Rightarrow> None
             | Rejected err \<Rightarrow> Some None
             | Resolved libs \<Rightarrow>
                 (case find isDefault (case libs of None \<Rightarrow> [] | Some ls \<Rightarrow> ls) of
                    None \<Rightarrow> Some None
                  | Some defaultLib \<Rightarrow>
                      if truthy (Some (path defaultLib))
                      then Some (Some (path_join [path defaultLib, [''Software'']]))
                      else Some None)))"

text \<open>Modelled from the spec: \<^verbatim>\<open>sToMs\<close> (shared/helpers/time.helpers, not under src)
  converts the timeout of thirty seconds to milliseconds.\<close>

definition sToMs :: "int \<Rightarrow> int" where
  "sToMs s = 1000 * s"

text \<open>
  \<^verbatim>\<open>lastValueFrom(this.oculusLib$.pipe(take(1), timeout(sToMs(30)), catchError(() => of(null))))\<close>,
  for a wait that starts at the time \<open>now\<close>: the value fed to the subject (replayed when
  it was fed before), or \<^verbatim>\<open>null\<close> when nothing is fed before the timeout. \<open>waitEnd\<close> is
  the time at which the wait returns. A launch waits twice, in \<open>deleteBsSymlinks\<close> and
  then in \<open>prepareDowngradedVersion\<close>; the clock of the model advances in these waits
  only.
\<close>

definition awaitOculusLib :: "env \<Rightarrow> int \<Rightarrow> path option" where
  "awaitOculusLib env now =
     (case oculusLib_subject env of
        None \<Rightarrow> None
      | Some v \<Rightarrow> if fedAt env < now + sToMs 30 then v else None)"

definition waitEnd :: "env \<Rightarrow> int \<Rightarrow> int" where
  "waitEnd env now =
     (case oculusLib_subject env of
        None \<Rightarrow> now + sToMs 30
      | Some v \<Rightarrow> if fedAt env < now + sToMs 30 then max now (fedAt env) else now + sToMs 30)"

subsection \<open>Removing the links created by the application\<close>

text \<open>The second \<^verbatim>\<open>Promise.all\<close>: the names whose link shows \<^verbatim>\<open>metadata.config\<close>;
  one \<^verbatim>\<open>readdir\<close> that rejects makes the whole step reject.\<close>

fun keepMarked :: "fs \<Rightarrow> path \<Rightarrow> string list \<Rightarrow> exn + string list" where
  "keepMarked fs lib [] = Inr []"
| "keepMarked fs lib (name # rest) =
     (case readdir fs (path_join [lib, [name]]) of
        Inl e \<Rightarrow> Inl e
      | Inr symlinkContents \<Rightarrow>
          (case keepMarked fs lib rest of
             Inl e \<Rightarrow> Inl e
           | Inr kept \<Rightarrow>
               Inr (if ''metadata.config'' \<in> set symlinkContents then name # kept else kept)))"

text \<open>The third \<^verbatim>\<open>Promise.all\<close>: every \<^verbatim>\<open>unlink\<close> is issued; the first rejection is
  the result.\<close>

fun unlinkAll :: "fs \<Rightarrow> path list \<Rightarrow> (exn + unit) \<times> fs" where
  "unlinkAll fs [] = (Inr (), fs)"
| "unlinkAll fs (p # ps) =
     (case unlink fs p of
        Inl e \<Rightarrow> (Inl e, snd (unlinkAll fs ps))
      | Inr fs1 \<Rightarrow> unlinkAll fs1 ps)"

text \<open>The first \<^verbatim>\<open>Promise.all\<close> and the filter on the name: the junctions of the library
  root whose name starts with \<open>OCULUS_BS_DIR\<close>.\<close>

definition bsSymlinks :: "env \<Rightarrow> fs \<Rightarrow> path \<Rightarrow> string list \<Rightarrow> string list" where
  "bsSymlinks env fs lib libContents =
     filter (\<lambda>name. prefix (OCULUS_BS_DIR env) name)
       (filter (\<lambda>name. isJunction fs (path_join [lib, [name]])) libContents)"

definition deleteBsSymlinks :: "env \<Rightarrow> int \<Rightarrow> fs \<Rightarrow> (exn + unit) \<times> fs" where
  "deleteBsSymlinks env now fs =
     (case awaitOculusLib env now of
        None \<Rightarrow> (Inl (Error ''Oculus library not found, deleteBsSymlinks''), fs)
      | Some oculusLibPath \<Rightarrow>
          if \<not> truthy (Some oculusLibPath) \<or> \<not> pathExists fs (Some oculusLibPath)
          then (Inl (Error ''Oculus library not found, deleteBsSymlinks''), fs)
          else
            (case readdir fs oculusLibPath of
               Inl e \<Rightarrow> (Inl e, fs)
             | Inr libContents \<Rightarrow>
                 (case keepMarked fs oculusLibPath (bsSymlinks env fs oculusLibPath libContents) of
                    Inl e \<Rightarrow> (Inl e, fs)
                  | Inr bsmSymlinks \<Rightarrow>
                      unlinkAll fs (map (\<lambda>name. path_join [oculusLibPath, [name]]) bsmSymlinks))))"

subsection \<open>Backup and restore of the original install\<close>

text \<open>
  Both ask the Oculus service for the folder and rename it within its parent.
  \<open>backupOriginalBeatSaber\<close> returns at once on a falsy folder. In
  \<open>restoreOriginalBeatSaber\<close> the folder may be \<^verbatim>\<open>null\<close> or empty: \<^verbatim>\<open>pathExists\<close> then
  answers \<^verbatim>\<open>false\<close> and the function returns.
\<close>

definition backupOriginalBeatSaber :: "env \<Rightarrow> fs \<Rightarrow> (exn + unit) \<times> fs" where
  "backupOriginalBeatSaber env fs =
     (case getGameFolder env fs (OCULUS_BS_DIR env) of
        Inl e \<Rightarrow> (Inl e, fs)
      | Inr None \<Rightarrow> (Inr (), fs)
      | Inr (Some bsFolder) \<Rightarrow>
          if \<not> truthy (Some bsFolder) then (Inr (), fs)
          else
            (case rename fs bsFolder (path_join [bsFolder, [''..''], [OCULUS_BS_BACKUP_DIR env]]) of
               Inl e \<Rightarrow> (Inl e, fs)
             | Inr fs1 \<Rightarrow> (Inr (), fs1)))"

definition restoreOriginalBeatSaber :: "env \<Rightarrow> fs \<Rightarrow> (exn + unit) \<times> fs" where
  "restoreOriginalBeatSaber env fs =
     (case getGameFolder env fs (OCULUS_BS_BACKUP_DIR env) of
        Inl e \<Rightarrow> (Inl e, fs)
      | Inr bsFolderBackupPath \<Rightarrow>
          if \<not> pathExists fs bsFolderBackupPath then (Inr (), fs)
          else
            (case bsFolderBackupPath of
               None \<Rightarrow> (Inr (), fs)
             | Some backup \<Rightarrow>
                 (case rename fs backup (path_join [backup, [''..''], [OCULUS_BS_DIR env]]) of
                    Inl e \<Rightarrow> (Inl e, fs)
                  | Inr fs1 \<Rightarrow> (Inr (), fs1))))"

subsection \<open>Preparation\<close>

text \<open>
  In \<^verbatim>\<open>prepareOriginalVersion\<close> the call of \<^verbatim>\<open>getGameFolder\<close> is not awaited: the test
  \<^verbatim>\<open>if(!bsPath)\<close> sees a promise, which is never falsy, and the function settles as that
  promise does, with \<^verbatim>\<open>null\<close> when the folder is not found.
\<close>

definition prepareOriginalVersion :: "env \<Rightarrow> fs \<Rightarrow> (exn + path option) \<times> fs" where
  "prepareOriginalVersion env fs =
     (case restoreOriginalBeatSaber env fs of
        (Inl e, fs1) \<Rightarrow> (Inl e, fs1)
      | (Inr u, fs1) \<Rightarrow> (getGameFolder env fs1 (OCULUS_BS_DIR env), fs1))"

definition prepareDowngradedVersion ::
  "env \<Rightarrow> LaunchOption \<Rightarrow> int \<Rightarrow> fs \<Rightarrow> (exn + path) \<times> fs" where
  "prepareDowngradedVersion env launchOptions now fs =
     (case awaitOculusLib env now of
        None \<Rightarrow> (Inl (Error ''No Oculus library found''), fs)
      | Some oculusLib \<Rightarrow>
          if \<not> truthy (Some oculusLib) then (Inl (Error ''No Oculus library found''), fs)
          else
            (case backupOriginalBeatSaber env fs of
               (Inl e, fs1) \<Rightarrow> (Inl e, fs1)
             | (Inr u, fs1) \<Rightarrow>
                 (case getInstalledVersionPath env (version launchOptions) of
                    Inl e \<Rightarrow> (Inl e, fs1)
                  | Inr symlinkTarget \<Rightarrow>
                      (let symlinkPath = path_join [oculusLib, [OCULUS_BS_DIR env]] in
                       case symlink fs1 symlinkTarget symlinkPath of
                         Inl e \<Rightarrow> (Inl e, fs1)
                       | Inr fs2 \<Rightarrow> (Inr symlinkPath, fs2)))))"

subsection \<open>Launch\<close>

datatype logline = LogError string exn | LogInfo string int

text \<open>What the producer calls on the subscriber, and what a subscriber lets through:
  nothing after the first \<^verbatim>\<open>error\<close> or \<^verbatim>\<open>complete\<close>.\<close>

datatype notification = Next BSLaunchEvent | Err exn | Complete

fun delivered :: "notification list \<Rightarrow> notification list" where
  "delivered [] = []"
| "delivered (Next e # xs) = Next e # delivered xs"
| "delivered (Err e # xs) = [Err e]"
| "delivered (Complete # xs) = [Complete]"

fun isTerminal :: "notification \<Rightarrow> bool" where
  "isTerminal (Next e) = False"
| "isTerminal (Err e) = True"
| "isTerminal Complete = True"

record outcome =
  calls :: "notification list"
  logs :: "logline list"
  disk :: fs

text \<open>\<^verbatim>\<open>launchOptions.version.oculus ? prepareOriginalVersion() : prepareDowngradedVersion()\<close>\<close>

definition prepare :: "env \<Rightarrow> LaunchOption \<Rightarrow> int \<Rightarrow> fs \<Rightarrow> (exn + path option) \<times> fs" where
  "prepare env launchOptions now fs =
     (if oculus (version launchOptions) then prepareOriginalVersion env fs
      else (case prepareDowngradedVersion env launchOptions now fs of
              (Inl e, fs1) \<Rightarrow> (Inl e, fs1)
            | (Inr symlinkPath, fs1) \<Rightarrow> (Inr (Some symlinkPath), fs1)))"

text \<open>
  The body of the asynchronous function, started at the time \<open>now\<close>: its result (\<open>None\<close>
  while the game is still running), the events it has sent, the lines it has logged and
  the filesystem it leaves. The preparation starts when the wait of \<open>deleteBsSymlinks\<close>
  has returned. \<^verbatim>\<open>path.join\<close> throws a \<^verbatim>\<open>TypeError\<close> on \<^verbatim>\<open>null\<close>.
\<close>

definition launchAsync ::
  "env \<Rightarrow> LaunchOption \<Rightarrow> int \<Rightarrow> fs \<Rightarrow>
     (exn + int) option \<times> notification list \<times> logline list \<times> fs" where
  "launchAsync env launchOptions now fs =
     (let bsRunning = (case taskRunning env (BS_EXECUTABLE env) of Inl e \<Rightarrow> False | Inr b \<Rightarrow> b) in
      if bsRunning
      then (Some (Inl (fromError (Error ''Cannot start two instance of Beat Saber for Oculus'')
                         BS_ALREADY_RUNNING)), [], [], fs)
      else
        (case deleteBsSymlinks env now fs of
           (cleaned, fs1) \<Rightarrow>
             (let lg = (case cleaned of
                          Inl err \<Rightarrow> [LogError ''Error while deleting BSM symlinks'' err]
                        | Inr u \<Rightarrow> []) in
              case prepare env launchOptions (waitEnd env now) fs1 of
                (Inl err, fs2) \<Rightarrow> (Some (Inl (fromError err OCULUS_LIB_NOT_FOUND)), [], lg, fs2)
              | (Inr None, fs2) \<Rightarrow> (Some (Inl (Error ''ERR_INVALID_ARG_TYPE'')), [], lg, fs2)
              | (Inr (Some bsPath), fs2) \<Rightarrow>
                  (let exePath = path_join [bsPath, [BS_EXECUTABLE env]] in
                   if \<not> pathExists fs2 (Some exePath)
                   then (Some (Inl (fromError (Error (''BS Path not exist '' @ pathString bsPath))
                                     BS_NOT_FOUND)),
                         [], lg, fs2)
                   else
                     ((case launchBs env exePath (buildBsLaunchArgs env launchOptions) of
                         Rejected err \<Rightarrow> Some (Inl (fromError err BS_EXIT_ERROR))
                       | Resolved exitCode \<Rightarrow> Some (Inr exitCode)
                       | Pending \<Rightarrow> None),
                      [Next BS_LAUNCHING], lg, fs2)))))"

definition launch :: "env \<Rightarrow> LaunchOption \<Rightarrow> int \<Rightarrow> fs \<Rightarrow> outcome" where
  "launch env launchOptions now fs =
     (case launchAsync env launchOptions now fs of
        (Some (Inr exitCode), sent, lg, fs1) \<Rightarrow>
          \<lparr>calls = sent @ [Complete],
           logs = lg @ [LogInfo ''BS process exit code'' exitCode],
           disk = fs1\<rparr>
      | (Some (Inl err), sent, lg, fs1) \<Rightarrow>
          \<lparr>calls = sent @ [Err (if isCustomError err then err else fromError err UNKNOWN_ERROR),
                            Complete],
           logs = lg,
           disk = fs1\<rparr>
      | (None, sent, lg, fs1) \<Rightarrow> \<lparr>calls = sent, logs = lg, disk = fs1\<rparr>)"

subsection \<open>Vocabulary of the statements\<close>

text \<open>
  A link of the library root counts as created by the application when it passes the
  three tests of \<open>deleteBsSymlinks\<close>: it is a junction, its name starts with
  \<open>OCULUS_BS_DIR\<close>, and \<^verbatim>\<open>metadata.config\<close> is among the contents read through it.
\<close>

definition ownedLink :: "env \<Rightarrow> fs \<Rightarrow> path \<Rightarrow> string \<Rightarrow> bool" where
  "ownedLink env fs lib name =
     (isJunction fs (path_join [lib, [name]])
      \<and> prefix (OCULUS_BS_DIR env) name
      \<and> (case readdir fs (path_join [lib, [name]]) of
            Inl e \<Rightarrow> False
          | Inr contents \<Rightarrow> ''metadata.config'' \<in> set contents))"


text \<open>
  The scan of \<open>deleteBsSymlinks\<close>, for a call at the time \<open>now\<close>, goes through when the
  library root is known, exists and can be listed, and every link whose name matches can
  be listed.
\<close>

definition scanOk :: "env \<Rightarrow> int \<Rightarrow> fs \<Rightarrow> bool" where
  "scanOk env now fs =
     (case awaitOculusLib env now of
        None \<Rightarrow> False
      | Some lib \<Rightarrow>
          truthy (Some lib) \<and> pathExists fs (Some lib)
          \<and> (case readdir fs lib of
                Inl e \<Rightarrow> False
              | Inr names \<Rightarrow>
                  (case keepMarked fs lib (bsSymlinks env fs lib names) of
                     Inl e \<Rightarrow> False
                   | Inr kept \<Rightarrow> True)))"

subsection \<open>A reference installation\<close>

text \<open>
  One Oculus library and one version of the game kept by the application. The Oculus
  service looks for a game folder in that library. The filesystems below are the states
  this installation goes through: nothing installed, the original game installed, the
  original moved aside, the link in place, and a few states met after an interrupted
  run or a deletion by hand.
\<close>

definition oculusSoftware :: path where
  "oculusSoftware = [''C:'', ''Oculus'', ''Software'']"

definition bsmVersion :: path where
  "bsmVersion = [''C:'', ''BSManager'', ''BSInstances'', ''1.29.1'']"

definition canonicalDir :: path where
  "canonicalDir = oculusSoftware @ [''hyperbolic-magnetism-beat-saber'']"

definition backupDir :: path where
  "backupDir = oculusSoftware @ [''hyperbolic-magnetism-beat-saber.bak'']"

definition refEnv :: env where
  "refEnv =
     \<lparr>OCULUS_BS_DIR = ''hyperbolic-magnetism-beat-saber'',
      OCULUS_BS_BACKUP_DIR = ''hyperbolic-magnetism-beat-saber.bak'',
      BS_EXECUTABLE = ''Beat Saber.exe'',
      tryGetGameFolder =
        (\<lambda>dirs. Resolved (Some (oculusSoftware @ [''hyperbolic-magnetism-beat-saber'']))),
      getOculusLibs = Resolved None,
      fedAt = 0,
      getGameFolder =
        (\<lambda>fs dir. Inr (if pathExists fs (Some (oculusSoftware @ [dir]))
                        then Some (oculusSoftware @ [dir]) else None)),
      getInstalledVersionPath = (\<lambda>v. Inr bsmVersion),
      taskRunning = (\<lambda>exe. Inr False),
      buildBsLaunchArgs = additionalArgs,
      launchBs = (\<lambda>exe args. Resolved 0)\<rparr>"

text \<open>The same installation when the discovery of the library failed at start-up, when
  it never answers, and when it answers after forty seconds.\<close>

definition noLibraryEnv :: env where
  "noLibraryEnv = refEnv\<lparr>tryGetGameFolder := \<lambda>dirs. Rejected (Error ''EPERM'')\<rparr>"

definition slowDiscoveryEnv :: env where
  "slowDiscoveryEnv = refEnv\<lparr>tryGetGameFolder := \<lambda>dirs. Pending\<rparr>"

definition lateDiscoveryEnv :: env where
  "lateDiscoveryEnv = refEnv\<lparr>fedAt := 40000\<rparr>"

definition bsmFs :: fs where
  "bsmFs =
     [([''C:''], Dir),
      ([''C:'', ''Oculus''], Dir),
      (oculusSoftware, Dir),
      ([''C:'', ''BSManager''], Dir),
      ([''C:'', ''BSManager'', ''BSInstances''], Dir),
      (bsmVersion, Dir),
      (bsmVersion @ [''Beat Saber.exe''], File),
      (bsmVersion @ [''metadata.config''], File)]"

text \<open>The original game installed; the original moved aside; both at once.\<close>

definition stockFs :: fs where
  "stockFs =
     bsmFs @
     [(oculusSoftware @ [''hyperbolic-magnetism-beat-saber''], Dir),
      (oculusSoftware @ [''hyperbolic-magnetism-beat-saber'', ''Beat Saber.exe''], File)]"

definition backedUpFs :: fs where
  "backedUpFs = bsmFs @ [(backupDir, Dir), (backupDir @ [''Beat Saber.exe''], File)]"

definition doubledFs :: fs where
  "doubledFs = stockFs @ [(backupDir, Dir), (backupDir @ [''Beat Saber.exe''], File)]"


definition crashedFs :: fs where
  "crashedFs = backedUpFs @ [(canonicalDir, Junction bsmVersion)]"

text \<open>The link in place after the version it points to has been deleted.\<close>

definition danglingFs :: fs where
  "danglingFs =
     bsmFs @ [(canonicalDir, Junction [''C:'', ''BSManager'', ''BSInstances'', ''1.28.0''])]"

text \<open>A file where the library root should be.\<close>

definition fileRootFs :: fs where
  "fileRootFs = [([''C:''], Dir), ([''C:'', ''Oculus''], Dir), (oculusSoftware, File)]"

text \<open>A version folder that holds no \<^verbatim>\<open>metadata.config\<close>.\<close>

definition bareFs :: fs where
  "bareFs =
     [([''C:''], Dir),
      ([''C:'', ''Oculus''], Dir),
      (oculusSoftware, Dir),
      ([''C:'', ''BSManager''], Dir),
      ([''C:'', ''BSManager'', ''BSInstances''], Dir),
      (bsmVersion, Dir),
      (bsmVersion @ [''Beat Saber.exe''], File)]"

text \<open>The original game installed beside such a version folder.\<close>

definition bareStockFs :: fs where
  "bareStockFs =
     bareFs @
     [(oculusSoftware @ [''hyperbolic-magnetism-beat-saber''], Dir),
      (oculusSoftware @ [''hyperbolic-magnetism-beat-saber'', ''Beat Saber.exe''], File)]"


definition mixedFs :: fs where
  "mixedFs =
     crashedFs @
     [([''C:'', ''Mods''], Dir),
      (oculusSoftware @ [''hyperbolic-magnetism-beat-saber-mods''], Junction [''C:'', ''Mods''])]"

definition managedRequest :: LaunchOption where
  "managedRequest =
     \<lparr>version = \<lparr>BSVersion = ''1.29.1'', oculus = False\<rparr>, additionalArgs = []\<rparr>"

definition nativeRequest :: LaunchOption where
  "nativeRequest =
     \<lparr>version = \<lparr>BSVersion = ''1.34.2'', oculus = True\<rparr>, additionalArgs = []\<rparr>"

section \<open>Auxiliary facts\<close>

subsection \<open>Falsy values\<close>

lemma truthy_simps [simp]:
  "truthy None = False"
  "truthy (Some q) = (q \<noteq> [])"
  by (simp_all add: truthy_def)

lemma path_join_nonempty: "path_join ps \<noteq> []"
  by (simp add: path_join_def split: list.splits)

text \<open>The subject is fed with results of \<^verbatim>\<open>path.join\<close> only: a library that a wait
  yields is never the empty string.\<close>

text \<open>A wait returns within thirty seconds. A value that one wait has got is replayed to
  every later wait; so a later wait that yields \<^verbatim>\<open>null\<close> follows earlier waits that
  yielded \<^verbatim>\<open>null\<close>.\<close>

lemma waitEnd_bounds: "now \<le> waitEnd env now \<and> waitEnd env now \<le> now + sToMs 30"
  by (simp add: waitEnd_def sToMs_def split: option.splits)

lemma await_replay:
  "awaitOculusLib env now = Some lib \<Longrightarrow> now \<le> later \<Longrightarrow> awaitOculusLib env later = Some lib"
  by (auto simp: awaitOculusLib_def split: option.splits if_splits)

lemma await_earlier:
  "awaitOculusLib env later = None \<Longrightarrow> now \<le> later \<Longrightarrow> awaitOculusLib env now = None"
  by (auto simp: awaitOculusLib_def split: option.splits if_splits)

lemma awaitOculusLib_nonempty:
  "awaitOculusLib env now = Some lib \<Longrightarrow> lib \<noteq> []"
  by (auto simp: awaitOculusLib_def oculusLib_subject_def path_join_nonempty
      split: option.splits promise.splits if_splits)

subsection \<open>A smaller filesystem resolves less\<close>

lemma map_le_Some:
  assumes "m1 \<subseteq>\<^sub>m m2" and "m1 x = Some v"
  shows "m2 x = Some v"
proof -
  from assms(2) have "x \<in> dom m1" by auto
  with assms(1) have "m1 x = m2 x" unfolding map_le_def by blast
  with assms(2) show ?thesis by simp
qed

lemma canon_mono:
  "map_of fs1 \<subseteq>\<^sub>m map_of fs \<Longrightarrow> canon n fs1 cur rest = Some q \<Longrightarrow>
   canon n fs cur rest = Some q"
proof (induction n fs1 cur rest rule: canon.induct)
  case (1 n fs1 cur)
  then show ?case by simp
next
  case (2 n fs1 cur c cs)
  note le = "2.prems"(1) and run = "2.prems"(2)
  from run obtain v where v: "map_of fs1 (cur @ [c]) = Some v"
    by (auto split: option.splits)
  from le v have v': "map_of fs (cur @ [c]) = Some v"
    by (rule map_le_Some)
  show ?case
  proof (cases v)
    case File
    with v v' run show ?thesis by (simp split: if_splits)
  next
    case Dir
    with v v' run le "2.IH"(1) show ?thesis by simp
  next
    case (Junction t)
    show ?thesis
    proof (cases n)
      case 0
      with v Junction run show ?thesis by simp
    next
      case (Suc m)
      with v v' Junction run le "2.IH"(2) show ?thesis by simp
    qed
  qed
qed

lemma node_at_mono:
  "map_of fs1 \<subseteq>\<^sub>m map_of fs \<Longrightarrow> node_at fs1 p = Some v \<Longrightarrow> node_at fs p = Some v"
  by (auto simp: node_at_def dest: map_le_Some split: if_splits)

lemma realpath_mono:
  "map_of fs1 \<subseteq>\<^sub>m map_of fs \<Longrightarrow> realpath fs1 p = Some q \<Longrightarrow> realpath fs p = Some q"
  by (auto simp: realpath_def canon_mono split: if_splits)

lemma lresolve_mono:
  assumes "map_of fs1 \<subseteq>\<^sub>m map_of fs" and "lresolve fs1 p = Some k"
  shows "lresolve fs p = Some k"
proof (cases "rev (normalize_path [] p)")
  case Nil
  with assms(2) show ?thesis by (simp add: lresolve_def split: if_splits)
next
  case (Cons c rparent)
  with assms(2) obtain d where ne: "p \<noteq> []"
    and d: "canon SYMLOOP_MAX fs1 [] (rev rparent) = Some d"
    and dir: "node_at fs1 d = Some Dir" and k: "k = d @ [c]"
    by (auto simp: lresolve_def split: option.splits if_splits)
  from canon_mono [OF assms(1) d] node_at_mono [OF assms(1) dir] k Cons ne
  show ?thesis by (simp add: lresolve_def)
qed

lemma isJunction_iff:
  "isJunction fs p \<longleftrightarrow> (\<exists>k t. lresolve fs p = Some k \<and> node_at fs k = Some (Junction t))"
  by (auto simp: isJunction_def split: option.splits node.splits)

lemma isJunction_mono:
  "map_of fs1 \<subseteq>\<^sub>m map_of fs \<Longrightarrow> isJunction fs1 p \<Longrightarrow> isJunction fs p"
  unfolding isJunction_iff by (blast dest: lresolve_mono node_at_mono)

lemma children_mono:
  "set fs1 \<subseteq> set fs \<Longrightarrow> set (children fs1 d) \<subseteq> set (children fs d)"
  by (auto simp: children_def)

lemma readdir_mono:
  assumes "map_of fs1 \<subseteq>\<^sub>m map_of fs" and "set fs1 \<subseteq> set fs" and "readdir fs1 p = Inr c1"
  shows "\<exists>c. readdir fs p = Inr c \<and> set c1 \<subseteq> set c"
proof -
  from assms(3) obtain d where d: "realpath fs1 p = Some d" and dir: "node_at fs1 d = Some Dir"
    and c1: "c1 = children fs1 d"
    by (auto simp: readdir_def split: option.splits if_splits)
  from realpath_mono [OF assms(1) d] node_at_mono [OF assms(1) dir] c1 children_mono [OF assms(2)]
  show ?thesis by (simp add: readdir_def)
qed

subsection \<open>Unlinking\<close>

lemma map_of_filter_key:
  "map_of (filter (\<lambda>(q, n). q \<noteq> k) fs) x = (if x = k then None else map_of fs x)"
  by (induction fs) auto

lemma filter_key_le: "map_of (filter (\<lambda>(q, n). q \<noteq> k) fs) \<subseteq>\<^sub>m map_of fs"
  by (simp add: map_le_def map_of_filter_key dom_def)

lemma unlink_Inr:
  assumes "unlink fs p = Inr fs1"
  shows "\<exists>k. lresolve fs p = Some k \<and> k \<noteq> [] \<and> fs1 = filter (\<lambda>(q, n). q \<noteq> k) fs
           \<and> map_of fs k \<noteq> None \<and> map_of fs k \<noteq> Some Dir"
  using assms
  by (auto simp: unlink_def node_at_def split: option.splits node.splits if_splits)

lemma unlink_Inl:
  assumes "unlink fs p = Inl e" and "lresolve fs p = Some k"
  shows "node_at fs k = None \<or> node_at fs k = Some Dir"
  using assms by (auto simp: unlink_def split: option.splits node.splits)

lemma unlinkAll_le:
  "unlinkAll fs ps = (r, fs1) \<Longrightarrow> map_of fs1 \<subseteq>\<^sub>m map_of fs \<and> set fs1 \<subseteq> set fs"
proof (induction ps arbitrary: fs r)
  case Nil
  then show ?case by simp
next
  case (Cons p ps)
  show ?case
  proof (cases "unlink fs p")
    case (Inl e)
    with Cons.prems have "unlinkAll fs ps = (fst (unlinkAll fs ps), fs1)"
      by (cases "unlinkAll fs ps") auto
    from Cons.IH [OF this] show ?thesis .
  next
    case (Inr fs2)
    with Cons.prems have run: "unlinkAll fs2 ps = (r, fs1)" by simp
    from unlink_Inr [OF Inr] obtain k where fs2: "fs2 = filter (\<lambda>(q, n). q \<noteq> k) fs" by blast
    have "map_of fs2 \<subseteq>\<^sub>m map_of fs" "set fs2 \<subseteq> set fs"
      by (auto simp: fs2 filter_key_le)
    with Cons.IH [OF run] show ?thesis
      by (blast intro: map_le_trans)
  qed
qed

text \<open>Whatever disappears was the entry of one of the paths handed to \<open>unlinkAll\<close>; and
  afterwards none of these paths names a file or a link any more.\<close>

lemma unlinkAll_removed:
  "unlinkAll fs ps = (r, fs1) \<Longrightarrow> (k, n) \<in> set fs \<Longrightarrow> (k, n) \<notin> set fs1 \<Longrightarrow>
   \<exists>p \<in> set ps. lresolve fs p = Some k"
proof (induction ps arbitrary: fs r)
  case Nil
  then show ?case by simp
next
  case (Cons p ps)
  show ?case
  proof (cases "unlink fs p")
    case (Inl e)
    with Cons.prems have "unlinkAll fs ps = (fst (unlinkAll fs ps), fs1)"
      by (cases "unlinkAll fs ps") auto
    from Cons.IH [OF this Cons.prems(2,3)] show ?thesis by auto
  next
    case (Inr fs2)
    with Cons.prems have run: "unlinkAll fs2 ps = (r, fs1)" by simp
    from unlink_Inr [OF Inr] obtain k' where k': "lresolve fs p = Some k'"
      and fs2: "fs2 = filter (\<lambda>(q, n). q \<noteq> k') fs" by blast
    show ?thesis
    proof (cases "k = k'")
      case True
      with k' show ?thesis by auto
    next
      case False
      with Cons.prems(2) fs2 have "(k, n) \<in> set fs2" by auto
      from Cons.IH [OF run this Cons.prems(3)] obtain q where q: "q \<in> set ps"
        and "lresolve fs2 q = Some k" by blast
      with lresolve_mono [of fs2 fs q k] fs2 have "lresolve fs q = Some k"
        by (simp add: filter_key_le)
      with q show ?thesis by auto
    qed
  qed
qed

lemma unlinkAll_gone:
  "unlinkAll fs ps = (r, fs1) \<Longrightarrow> p \<in> set ps \<Longrightarrow> lresolve fs1 p = Some k \<Longrightarrow>
   node_at fs1 k = None \<or> node_at fs1 k = Some Dir"
proof (induction ps arbitrary: fs r)
  case Nil
  then show ?case by simp
next
  case (Cons p' ps)
  show ?case
  proof (cases "unlink fs p'")
    case (Inl e)
    with Cons.prems have run: "unlinkAll fs ps = (fst (unlinkAll fs ps), fs1)"
      by (cases "unlinkAll fs ps") auto
    show ?thesis
    proof (cases "p = p'")
      case True
      from unlinkAll_le [OF run] have le: "map_of fs1 \<subseteq>\<^sub>m map_of fs" by simp
      from lresolve_mono [OF le Cons.prems(3)] True have "lresolve fs p' = Some k" by simp
      from unlink_Inl [OF Inl this] have "node_at fs k = None \<or> node_at fs k = Some Dir" .
      with node_at_mono [OF le, of k] show ?thesis
        by (cases "node_at fs1 k") auto
    next
      case False
      with Cons.prems(2) have "p \<in> set ps" by simp
      from Cons.IH [OF run this Cons.prems(3)] show ?thesis .
    qed
  next
    case (Inr fs2)
    with Cons.prems have run: "unlinkAll fs2 ps = (r, fs1)" by simp
    show ?thesis
    proof (cases "p = p'")
      case True
      from unlink_Inr [OF Inr] obtain k' where k': "lresolve fs p' = Some k'" and ne: "k' \<noteq> []"
        and fs2: "fs2 = filter (\<lambda>(q, n). q \<noteq> k') fs" by blast
      from unlinkAll_le [OF run] have le: "map_of fs1 \<subseteq>\<^sub>m map_of fs2" by simp
      have le2: "map_of fs2 \<subseteq>\<^sub>m map_of fs" by (simp add: fs2 filter_key_le)
      from lresolve_mono [OF le2 lresolve_mono [OF le Cons.prems(3)]] True k'
      have kk: "k = k'" by simp
      have "node_at fs2 k = None"
        using ne by (simp add: node_at_def kk fs2 map_of_filter_key)
      with node_at_mono [OF le, of k] show ?thesis
        by (cases "node_at fs1 k") auto
    next
      case False
      with Cons.prems(2) have "p \<in> set ps" by simp
      from Cons.IH [OF run this Cons.prems(3)] show ?thesis .
    qed
  qed
qed

subsection \<open>The scan of the library\<close>

lemma keepMarked_sound:
  "keepMarked fs lib names = Inr kept \<Longrightarrow> name \<in> set kept \<Longrightarrow>
   name \<in> set names \<and>
   (\<exists>c. readdir fs (path_join [lib, [name]]) = Inr c \<and> ''metadata.config'' \<in> set c)"
proof (induction names arbitrary: kept)
  case Nil
  then show ?case by simp
next
  case (Cons a names)
  from Cons.prems(1) obtain c kept' where c: "readdir fs (path_join [lib, [a]]) = Inr c"
    and rest: "keepMarked fs lib names = Inr kept'"
    and kept: "kept = (if ''metadata.config'' \<in> set c then a # kept' else kept')"
    by (auto split: sum.splits)
  show ?case
  proof (cases "name \<in> set kept'")
    case True
    from Cons.IH [OF rest True] show ?thesis by auto
  next
    case False
    with kept Cons.prems(2) have "name = a" "''metadata.config'' \<in> set c"
      by (auto split: if_splits)
    with c show ?thesis by auto
  qed
qed

lemma keepMarked_complete:
  "keepMarked fs lib names = Inr kept \<Longrightarrow> name \<in> set names \<Longrightarrow>
   \<exists>c. readdir fs (path_join [lib, [name]]) = Inr c \<and>
       (''metadata.config'' \<in> set c \<longrightarrow> name \<in> set kept)"
proof (induction names arbitrary: kept)
  case Nil
  then show ?case by simp
next
  case (Cons a names)
  from Cons.prems(1) obtain c kept' where c: "readdir fs (path_join [lib, [a]]) = Inr c"
    and rest: "keepMarked fs lib names = Inr kept'"
    and kept: "kept = (if ''metadata.config'' \<in> set c then a # kept' else kept')"
    by (auto split: sum.splits)
  show ?case
  proof (cases "name = a")
    case True
    with c kept show ?thesis by auto
  next
    case False
    with Cons.prems(2) have "name \<in> set names" by simp
    from Cons.IH [OF rest this] kept show ?thesis by auto
  qed
qed

lemma deleteBsSymlinks_cases:
  assumes "deleteBsSymlinks env now fs = (r, fs1)"
  shows "(fs1 = fs \<and> (\<exists>e. r = Inl e))
       \<or> (\<exists>lib names kept. awaitOculusLib env now = Some lib \<and> pathExists fs (Some lib)
            \<and> readdir fs lib = Inr names
            \<and> keepMarked fs lib (bsSymlinks env fs lib names) = Inr kept
            \<and> unlinkAll fs (map (\<lambda>name. path_join [lib, [name]]) kept) = (r, fs1))"
  using assms
  by (auto simp: deleteBsSymlinks_def split: option.splits if_splits sum.splits)

lemma scanOk_run:
  assumes "scanOk env now fs"
  shows "\<exists>lib names kept. awaitOculusLib env now = Some lib \<and> readdir fs lib = Inr names
           \<and> keepMarked fs lib (bsSymlinks env fs lib names) = Inr kept
           \<and> deleteBsSymlinks env now fs = unlinkAll fs (map (\<lambda>name. path_join [lib, [name]]) kept)"
  using assms
  by (auto simp: scanOk_def deleteBsSymlinks_def split: option.splits sum.splits)

lemma not_scanOk_run:
  assumes "\<not> scanOk env now fs"
  shows "\<exists>e. deleteBsSymlinks env now fs = (Inl e, fs)"
  using assms
  by (auto simp: scanOk_def deleteBsSymlinks_def split: option.splits sum.splits)

text \<open>The time of a call matters through the answer of its wait only.\<close>

lemma deleteBsSymlinks_same_answer:
  "awaitOculusLib env later = awaitOculusLib env now \<Longrightarrow>
   deleteBsSymlinks env later fs = deleteBsSymlinks env now fs"
  by (simp add: deleteBsSymlinks_def)

lemma scanOk_same_answer:
  "awaitOculusLib env later = awaitOculusLib env now \<Longrightarrow> scanOk env later fs = scanOk env now fs"
  by (simp add: scanOk_def)

text \<open>A scan that follows the removal finds nothing left to remove.\<close>

lemma rescan_empty:
  assumes names0: "readdir fs lib = Inr names0"
    and kept1: "keepMarked fs lib (bsSymlinks env fs lib names0) = Inr kept1"
    and run: "unlinkAll fs (map (\<lambda>name. path_join [lib, [name]]) kept1) = (r1, fs1)"
    and names1: "readdir fs1 lib = Inr names1"
    and kept2: "keepMarked fs1 lib (bsSymlinks env fs1 lib names1) = Inr kept2"
  shows "kept2 = []"
proof (rule ccontr)
  assume "kept2 \<noteq> []"
  then obtain name where name: "name \<in> set kept2"
    by (cases kept2) auto
  let ?p = "path_join [lib, [name]]"
  from unlinkAll_le [OF run] have le: "map_of fs1 \<subseteq>\<^sub>m map_of fs" and sub: "set fs1 \<subseteq> set fs"
    by simp_all
  from keepMarked_sound [OF kept2 name] obtain c1
    where cand1: "name \<in> set (bsSymlinks env fs1 lib names1)"
      and c1: "readdir fs1 ?p = Inr c1" and marked: "''metadata.config'' \<in> set c1"
    by blast
  from cand1 have in1: "name \<in> set names1" and junction1: "isJunction fs1 ?p"
    and pre: "prefix (OCULUS_BS_DIR env) name"
    by (auto simp: bsSymlinks_def)
  from readdir_mono [OF le sub names1] names0 have "name \<in> set names0"
    using in1 by auto
  moreover from isJunction_mono [OF le junction1] have "isJunction fs ?p" .
  ultimately have cand0: "name \<in> set (bsSymlinks env fs lib names0)"
    using pre by (simp add: bsSymlinks_def)
  from keepMarked_complete [OF kept1 cand0] obtain c0
    where c0: "readdir fs ?p = Inr c0"
      and keep: "''metadata.config'' \<in> set c0 \<longrightarrow> name \<in> set kept1"
    by blast
  from readdir_mono [OF le sub c1] c0 marked have "''metadata.config'' \<in> set c0"
    by auto
  with keep have issued: "?p \<in> set (map (\<lambda>name. path_join [lib, [name]]) kept1)"
    by auto
  from junction1 obtain k t where place: "lresolve fs1 ?p = Some k"
    and node: "node_at fs1 k = Some (Junction t)"
    unfolding isJunction_iff by blast
  from unlinkAll_gone [OF run issued place] node show False by simp
qed


subsection \<open>Names in a directory\<close>









subsection \<open>Creating a link\<close>

lemma append_le:
  "map_of fs \<subseteq>\<^sub>m map_of (fs @ [(k, v)])"
  by (simp add: map_le_map_add)

lemma node_at_append_new:
  "node_at fs k = None \<Longrightarrow> node_at (fs @ [(k, v)]) k = Some v"
  by (auto simp: node_at_def map_add_def split: if_splits)

lemma node_at_append_other:
  "q \<noteq> k \<Longrightarrow> node_at (fs @ [(k, v)]) q = node_at fs q"
  by (auto simp: node_at_def map_add_def split: option.splits)

lemma isJunction_new_link:
  assumes "lresolve fs p = Some k" and "node_at fs k = None"
  shows "isJunction (fs @ [(k, Junction target)]) p"
  unfolding isJunction_iff
  using lresolve_mono [OF append_le assms(1)] node_at_append_new [OF assms(2)]
  by blast

subsection \<open>Renaming\<close>

lemma canon_prefixes:
  "canon n fs cur rest = Some q \<Longrightarrow>
   (\<forall>p. prefix p cur \<longrightarrow> p \<noteq> [] \<longrightarrow> map_of fs p \<noteq> None) \<Longrightarrow>
   (\<forall>p. prefix p q \<longrightarrow> p \<noteq> [] \<longrightarrow> map_of fs p \<noteq> None)"
proof (induction n fs cur rest rule: canon.induct)
  case (1 n fs cur)
  then show ?case by simp
next
  case (2 n fs cur c cs)
  note run = "2.prems"(1) and below = "2.prems"(2)
  from run obtain v where v: "map_of fs (cur @ [c]) = Some v"
    by (auto split: option.splits)
  have step: "\<forall>p. prefix p (cur @ [c]) \<longrightarrow> p \<noteq> [] \<longrightarrow> map_of fs p \<noteq> None"
    using below v by (auto simp: prefix_snoc)
  show ?case
  proof (cases v)
    case File
    with v run have "q = cur @ [c]" by (simp split: if_splits)
    with step show ?thesis by blast
  next
    case Dir
    with v run have "canon n fs (cur @ [c]) cs = Some q" by simp
    from "2.IH"(1) [OF v Dir this step] show ?thesis .
  next
    case (Junction t)
    show ?thesis
    proof (cases n)
      case 0
      with v Junction run show ?thesis by simp
    next
      case (Suc m)
      with v Junction run have "canon m fs [] (normalize_path [] (t @ cs)) = Some q" by simp
      from "2.IH"(2) [OF v Junction Suc this] show ?thesis by simp
    qed
  qed
qed

lemma lresolve_ancestors:
  assumes "lresolve fs p = Some k" and "strict_prefix q k" and "q \<noteq> []"
  shows "map_of fs q \<noteq> None"
proof (cases "rev (normalize_path [] p)")
  case Nil
  with assms show ?thesis by (simp add: lresolve_def split: if_splits)
next
  case (Cons c rparent)
  with assms(1) obtain d where d: "canon SYMLOOP_MAX fs [] (rev rparent) = Some d"
    and k: "k = d @ [c]"
    by (auto simp: lresolve_def split: option.splits if_splits)
  from assms(2) k have "prefix q d" by (auto simp: strict_prefix_def prefix_snoc)
  with canon_prefixes [OF d] assms(3) show ?thesis by simp
qed

lemma rename_Inr:
  assumes "rename fs old new = Inr fs1"
  shows "\<exists>ko kn. lresolve fs old = Some ko \<and> lresolve fs new = Some kn \<and> ko \<noteq> []
           \<and> map_of fs ko \<noteq> None \<and> node_at fs kn = None \<and> \<not> prefix ko kn
           \<and> fs1 = map (\<lambda>(k, n). (rekey ko kn k, n)) fs"
  using assms by (auto simp: rename_def split: option.splits if_splits)

lemma rename_success:
  "lresolve fs old = Some ko \<Longrightarrow> lresolve fs new = Some kn \<Longrightarrow> ko \<noteq> [] \<Longrightarrow>
   map_of fs ko \<noteq> None \<Longrightarrow> node_at fs kn = None \<Longrightarrow> \<not> prefix ko kn \<Longrightarrow>
   rename fs old new = Inr (map (\<lambda>(k, n). (rekey ko kn k, n)) fs)"
  by (simp add: rename_def)

lemma rename_refused:
  assumes "lresolve fs new = Some kn" and "node_at fs kn \<noteq> None"
  shows "\<exists>e. rename fs old new = Inl e"
  using assms by (auto simp: rename_def split: option.splits)

lemma rekey_target:
  assumes "k \<noteq> kn"
  shows "rekey ko kn k = kn \<longleftrightarrow> k = ko"
proof (cases "prefix ko k")
  case True
  then obtain s where "k = ko @ s" by (auto simp: prefix_def)
  then show ?thesis by (simp add: rekey_def)
next
  case False
  with assms show ?thesis by (auto simp: rekey_def)
qed

lemma map_of_rekey_target:
  "map_of fs kn = None \<Longrightarrow> map_of (map (\<lambda>(k, n). (rekey ko kn k, n)) fs) kn = map_of fs ko"
proof (induction fs)
  case Nil
  then show ?case by simp
next
  case (Cons e fs)
  obtain k n where e: "e = (k, n)" by (cases e)
  from Cons.prems e have ne: "k \<noteq> kn" and rest: "map_of fs kn = None"
    by (auto split: if_splits)
  from rekey_target [OF ne, of ko] Cons.IH [OF rest] e show ?case by auto
qed

lemma map_of_rekey_source:
  assumes "\<forall>k \<in> fst ` set fs. rekey ko kn k \<noteq> ko"
  shows "map_of (map (\<lambda>(k, n). (rekey ko kn k, n)) fs) ko = None"
  using assms by (induction fs) auto

text \<open>A successful \<open>rename\<close> moves the entry: it is at the new place and gone from the
  old one.\<close>

lemma rename_moves:
  assumes "rename fs old new = Inr fs1"
  shows "\<exists>ko kn. lresolve fs old = Some ko \<and> lresolve fs new = Some kn
           \<and> map_of fs ko \<noteq> None \<and> node_at fs kn = None
           \<and> map_of fs1 kn = map_of fs ko \<and> map_of fs1 ko = None"
proof -
  from rename_Inr [OF assms] obtain ko kn where ko: "lresolve fs old = Some ko"
    and kn: "lresolve fs new = Some kn" and ne: "ko \<noteq> []" and src: "map_of fs ko \<noteq> None"
    and free: "node_at fs kn = None" and np: "\<not> prefix ko kn"
    and fs1: "fs1 = map (\<lambda>(k, n). (rekey ko kn k, n)) fs"
    by blast
  from free have kn_ne: "kn \<noteq> []" and free': "map_of fs kn = None"
    by (auto simp: node_at_def split: if_splits)
  have target: "map_of fs1 kn = map_of fs ko"
    unfolding fs1 using free' by (rule map_of_rekey_target)
  have "rekey ko kn k \<noteq> ko" for k
  proof
    assume eq: "rekey ko kn k = ko"
    show False
    proof (cases "prefix ko k")
      case True
      with eq have "prefix kn ko" by (auto simp: rekey_def prefix_def)
      moreover from src free' have "kn \<noteq> ko" by auto
      ultimately have "strict_prefix kn ko" by (simp add: strict_prefix_def)
      from lresolve_ancestors [OF ko this kn_ne] free' show False by simp
    next
      case False
      with eq show False by (simp add: rekey_def)
    qed
  qed
  then have "map_of fs1 ko = None"
    unfolding fs1 by (intro map_of_rekey_source) simp
  with ko kn src free target show ?thesis by blast
qed

text \<open>All that a successful \<open>rename\<close> gives.\<close>

lemma rename_result:
  assumes "rename fs old new = Inr fs1"
  shows "\<exists>ko kn. lresolve fs old = Some ko \<and> lresolve fs new = Some kn
           \<and> ko \<noteq> [] \<and> kn \<noteq> [] \<and> map_of fs ko \<noteq> None \<and> map_of fs kn = None
           \<and> fs1 = map (\<lambda>(k, n). (rekey ko kn k, n)) fs
           \<and> map_of fs1 kn = map_of fs ko \<and> map_of fs1 ko = None"
proof -
  from rename_Inr [OF assms] obtain ko kn where ko: "lresolve fs old = Some ko"
    and kn: "lresolve fs new = Some kn" and ne: "ko \<noteq> []" and src: "map_of fs ko \<noteq> None"
    and free: "node_at fs kn = None"
    and fs1: "fs1 = map (\<lambda>(k, n). (rekey ko kn k, n)) fs"
    by blast
  from free have kn_ne: "kn \<noteq> []" and free': "map_of fs kn = None"
    by (auto simp: node_at_def split: if_splits)
  from rename_moves [OF assms] ko kn
  have "map_of fs1 kn = map_of fs ko" and "map_of fs1 ko = None"
    by auto
  with ko kn ne kn_ne src free' fs1 show ?thesis by blast
qed





subsection \<open>Backup, restore and link, step by step\<close>

lemma backup_skipped:
  assumes "getGameFolder env fs (OCULUS_BS_DIR env) = Inr folder" and "\<not> truthy folder"
  shows "backupOriginalBeatSaber env fs = (Inr (), fs)"
  using assms by (cases folder) (simp_all add: backupOriginalBeatSaber_def)

lemma backup_performed:
  "getGameFolder env fs (OCULUS_BS_DIR env) = Inr (Some bsFolder) \<Longrightarrow> bsFolder \<noteq> [] \<Longrightarrow>
   backupOriginalBeatSaber env fs =
     (case rename fs bsFolder (path_join [bsFolder, [''..''], [OCULUS_BS_BACKUP_DIR env]]) of
        Inl e \<Rightarrow> (Inl e, fs)
      | Inr fs1 \<Rightarrow> (Inr (), fs1))"
  by (simp add: backupOriginalBeatSaber_def)

lemma backup_refused:
  assumes "getGameFolder env fs (OCULUS_BS_DIR env) = Inr (Some bsFolder)" and "bsFolder \<noteq> []"
    and "lresolve fs (path_join [bsFolder, [''..''], [OCULUS_BS_BACKUP_DIR env]]) = Some kn"
    and "node_at fs kn \<noteq> None"
  shows "\<exists>e. backupOriginalBeatSaber env fs = (Inl e, fs)"
proof -
  from rename_refused [OF assms(3,4)] obtain e
    where "rename fs bsFolder (path_join [bsFolder, [''..''], [OCULUS_BS_BACKUP_DIR env]]) = Inl e"
    by blast
  with assms(1,2) show ?thesis by (simp add: backup_performed)
qed




lemma prepareDowngradedVersion_link:
  assumes "awaitOculusLib env now = Some lib"
    and "backupOriginalBeatSaber env fs = (Inr (), fs1)"
    and "getInstalledVersionPath env (version launchOptions) = Inr target"
    and "lresolve fs1 (path_join [lib, [OCULUS_BS_DIR env]]) = Some k"
  shows "node_at fs1 k = None \<Longrightarrow>
           prepareDowngradedVersion env launchOptions now fs =
             (Inr (path_join [lib, [OCULUS_BS_DIR env]]), fs1 @ [(k, Junction target)])"
    and "node_at fs1 k \<noteq> None \<Longrightarrow>
           prepareDowngradedVersion env launchOptions now fs = (Inl (Error ''EEXIST''), fs1)"
  using assms awaitOculusLib_nonempty [OF assms(1)]
  by (simp_all add: prepareDowngradedVersion_def symlink_def)

lemma prepareDowngradedVersion_backup_failed:
  assumes "awaitOculusLib env now = Some lib" and "backupOriginalBeatSaber env fs = (Inl e, fs1)"
  shows "prepareDowngradedVersion env launchOptions now fs = (Inl e, fs1)"
  using assms awaitOculusLib_nonempty [OF assms(1)]
  by (simp add: prepareDowngradedVersion_def)

subsection \<open>The launch, step by step\<close>

lemma launchAsync_sent:
  "launchAsync env launchOptions now fs = (r, sent, lg, fs1) \<Longrightarrow> sent = [] \<or> (sent = [Next BS_LAUNCHING] )"
  by (auto simp: launchAsync_def Let_def
      split: if_splits prod.splits sum.splits option.splits promise.splits)

lemma launchAsync_not_running:
  assumes "taskRunning env (BS_EXECUTABLE env) \<noteq> Inr True"
    and "deleteBsSymlinks env now fs = (cleaned, fs1)"
    and "prepare env launchOptions (waitEnd env now) fs1 = (prepared, fs2)"
  shows "launchAsync env launchOptions now fs =
     (case prepared of
        Inl err \<Rightarrow> (Some (Inl (fromError err OCULUS_LIB_NOT_FOUND)), [],
                    (case cleaned of
                       Inl err \<Rightarrow> [LogError ''Error while deleting BSM symlinks'' err]
                     | Inr u \<Rightarrow> []), fs2)
      | Inr None \<Rightarrow> (Some (Inl (Error ''ERR_INVALID_ARG_TYPE'')), [],
                    (case cleaned of
                       Inl err \<Rightarrow> [LogError ''Error while deleting BSM symlinks'' err]
                     | Inr u \<Rightarrow> []), fs2)
      | Inr (Some bsPath) \<Rightarrow>
          if \<not> pathExists fs2 (Some (path_join [bsPath, [BS_EXECUTABLE env]]))
          then (Some (Inl (fromError (Error (''BS Path not exist '' @ pathString bsPath))
                            BS_NOT_FOUND)), [],
                (case cleaned of
                   Inl err \<Rightarrow> [LogError ''Error while deleting BSM symlinks'' err]
                 | Inr u \<Rightarrow> []), fs2)
          else
            ((case launchBs env (path_join [bsPath, [BS_EXECUTABLE env]])
                     (buildBsLaunchArgs env launchOptions) of
                Rejected err \<Rightarrow> Some (Inl (fromError err BS_EXIT_ERROR))
              | Resolved exitCode \<Rightarrow> Some (Inr exitCode)
              | Pending \<Rightarrow> None),
             [Next BS_LAUNCHING],
             (case cleaned of
                Inl err \<Rightarrow> [LogError ''Error while deleting BSM symlinks'' err]
              | Inr u \<Rightarrow> []), fs2))"
proof -
  from assms(1) have "(case taskRunning env (BS_EXECUTABLE env) of Inl e \<Rightarrow> False | Inr b \<Rightarrow> b) = False"
    by (cases "taskRunning env (BS_EXECUTABLE env)") auto
  with assms(2,3) show ?thesis
    by (simp add: launchAsync_def Let_def split: sum.splits option.splits)
qed

lemma launch_after_prepare:
  assumes "taskRunning env (BS_EXECUTABLE env) \<noteq> Inr True"
    and "deleteBsSymlinks env now fs = (cleaned, fs1)"
    and "prepare env launchOptions (waitEnd env now) fs1 = (prepared, fs2)"
  shows "disk (launch env launchOptions now fs) = fs2"
    and "delivered (calls (launch env launchOptions now fs)) =
     (case prepared of
        Inl err \<Rightarrow> [Err (CustomError (message err) OCULUS_LIB_NOT_FOUND)]
      | Inr None \<Rightarrow> [Err (CustomError ''ERR_INVALID_ARG_TYPE'' UNKNOWN_ERROR)]
      | Inr (Some bsPath) \<Rightarrow>
          if pathExists fs2 (Some (path_join [bsPath, [BS_EXECUTABLE env]]))
          then Next BS_LAUNCHING #
                 (case launchBs env (path_join [bsPath, [BS_EXECUTABLE env]])
                         (buildBsLaunchArgs env launchOptions) of
                    Rejected err \<Rightarrow> [Err (CustomError (message err) BS_EXIT_ERROR)]
                  | Resolved exitCode \<Rightarrow> [Complete]
                  | Pending \<Rightarrow> [])
          else [Err (CustomError (''BS Path not exist '' @ pathString bsPath) BS_NOT_FOUND)])"
    and "cleaned = Inl e \<Longrightarrow>
           LogError ''Error while deleting BSM symlinks'' e \<in> set (logs (launch env launchOptions now fs))"
  using launchAsync_not_running [OF assms]
  by (auto simp: launch_def fromError_def split: sum.splits option.splits promise.splits)

text \<open>The process inspector is consulted by \<open>launchAsync\<close> only.\<close>

lemma awaitOculusLib_taskRunning [simp]:
  "awaitOculusLib (env\<lparr>taskRunning := f\<rparr>) = awaitOculusLib env"
  by (simp add: awaitOculusLib_def oculusLib_subject_def fun_eq_iff
      cong: promise.case_cong option.case_cong if_cong)

lemma waitEnd_taskRunning [simp]:
  "waitEnd (env\<lparr>taskRunning := f\<rparr>) = waitEnd env"
  by (simp add: waitEnd_def oculusLib_subject_def fun_eq_iff
      cong: promise.case_cong option.case_cong if_cong)

lemma deleteBsSymlinks_taskRunning [simp]:
  "deleteBsSymlinks (env\<lparr>taskRunning := f\<rparr>) = deleteBsSymlinks env"
  by (simp add: deleteBsSymlinks_def bsSymlinks_def fun_eq_iff cong: option.case_cong sum.case_cong if_cong)

lemma prepare_taskRunning [simp]:
  "prepare (env\<lparr>taskRunning := f\<rparr>) = prepare env"
  by (simp add: prepare_def prepareOriginalVersion_def prepareDowngradedVersion_def
      restoreOriginalBeatSaber_def backupOriginalBeatSaber_def fun_eq_iff
      cong: option.case_cong sum.case_cong prod.case_cong if_cong)

subsection \<open>The reference installation, evaluated\<close>

lemma crashed_cleaned: "deleteBsSymlinks refEnv 0 crashedFs = (Inr (), backedUpFs)"
  by code_simp

lemma stock_cleaned: "deleteBsSymlinks refEnv 0 stockFs = (Inr (), stockFs)"
  by code_simp

lemma stock_backed_up: "backupOriginalBeatSaber refEnv stockFs = (Inr (), backedUpFs)"
  by code_simp

lemma dangling_cleaned:
  "deleteBsSymlinks refEnv 0 danglingFs = (Inl (Error ''ENOENT''), danglingFs)"
  by code_simp

lemma mixed_cleaned:
  "deleteBsSymlinks refEnv 0 mixedFs =
     (Inr (), filter (\<lambda>(q, n). q \<noteq> canonicalDir) mixedFs)"
  by code_simp


text \<open>An empty folder reported by the Oculus service is passed over by the backup and
  by the restore, and a default library with an empty path feeds \<^verbatim>\<open>null\<close>.\<close>

lemma empty_folder_not_backed_up:
  "backupOriginalBeatSaber (refEnv\<lparr>getGameFolder := \<lambda>fs dir. Inr (Some [])\<rparr>) stockFs =
     (Inr (), stockFs)"
  by code_simp

lemma empty_folder_not_restored:
  "restoreOriginalBeatSaber (refEnv\<lparr>getGameFolder := \<lambda>fs dir. Inr (Some [])\<rparr>) backedUpFs =
     (Inr (), backedUpFs)"
  by code_simp

lemma empty_library_path_is_null:
  "oculusLib_subject
     (refEnv\<lparr>tryGetGameFolder := \<lambda>dirs. Resolved (Some []),
             getOculusLibs := Resolved (Some [\<lparr>path = [], isDefault = True\<rparr>])\<rparr>) = Some None"
  by code_simp

lemma stock_no_junction: "\<not> isJunction stockFs p"
  by (auto simp: isJunction_iff node_at_def stockFs_def bsmFs_def split: if_splits)

section \<open>Properties of the launch pipeline\<close>

subsection \<open>One terminal notification, always classified\<close>

text \<open>
  C1. Whatever the request and the filesystem, the subscriber of \<open>launch\<close> receives at
  most one terminal notification, and an error it receives is always a
  \<^verbatim>\<open>CustomError\<close>, which carries a code of \<^verbatim>\<open>BSLaunchError\<close>: a plain error thrown by
  the pipeline reaches the subscriber wrapped under \<open>UNKNOWN_ERROR\<close>.
\<close>

theorem launch_terminal_classified:
  "length (filter isTerminal (delivered (calls (launch env launchOptions now fs)))) \<le> 1
   \<and> (\<forall>e. Err e \<in> set (delivered (calls (launch env launchOptions now fs))) \<longrightarrow> isCustomError e)
   \<and> (\<forall>m. fst (launchAsync env launchOptions now fs) = Some (Inl (Error m)) \<longrightarrow>
          Err (CustomError m UNKNOWN_ERROR) \<in> set (delivered (calls (launch env launchOptions now fs))))"
proof -
  obtain r sent lg fs1 where run: "launchAsync env launchOptions now fs = (r, sent, lg, fs1)"
    by (cases "launchAsync env launchOptions now fs") auto
  from launchAsync_sent [OF run] show ?thesis
  proof
    assume "sent = []"
    with run show ?thesis
      by (cases r) (auto simp: launch_def fromError_def split: sum.splits)
  next
    assume "sent = [Next BS_LAUNCHING]"
    with run show ?thesis
      by (cases r) (auto simp: launch_def fromError_def split: sum.splits)
  qed
qed

text \<open>The platform's own version requested while no game is installed: the Oculus
  service finds no folder, \<^verbatim>\<open>path.join\<close> throws, and the subscriber receives the error
  under \<open>UNKNOWN_ERROR\<close>. And a game that is still running: no terminal notification
  yet.\<close>

theorem launch_terminal_classified_witness:
  "length (filter isTerminal (delivered (calls (launch refEnv nativeRequest 0 bsmFs)))) \<le> 1
   \<and> fst (launchAsync refEnv nativeRequest 0 bsmFs) = Some (Inl (Error ''ERR_INVALID_ARG_TYPE''))
   \<and> delivered (calls (launch refEnv nativeRequest 0 bsmFs)) =
       [Err (CustomError ''ERR_INVALID_ARG_TYPE'' UNKNOWN_ERROR)]
   \<and> isCustomError (CustomError ''ERR_INVALID_ARG_TYPE'' UNKNOWN_ERROR)
   \<and> delivered (calls (launch (refEnv\<lparr>launchBs := \<lambda>exe args. Pending\<rparr>) nativeRequest 0 stockFs)) =
       [Next BS_LAUNCHING]
   \<and> length (filter isTerminal
         (delivered (calls (launch (refEnv\<lparr>launchBs := \<lambda>exe args. Pending\<rparr>)
            nativeRequest 0 stockFs)))) \<le> 1"
proof -
  have running: "delivered (calls (launch (refEnv\<lparr>launchBs := \<lambda>exe args. Pending\<rparr>)
      nativeRequest 0 stockFs)) = [Next BS_LAUNCHING]"
    by code_simp
  have raw: "fst (launchAsync refEnv nativeRequest 0 bsmFs) =
      Some (Inl (Error ''ERR_INVALID_ARG_TYPE''))"
    by code_simp
  have sent: "delivered (calls (launch refEnv nativeRequest 0 bsmFs)) =
       [Err (CustomError ''ERR_INVALID_ARG_TYPE'' UNKNOWN_ERROR)]"
    by code_simp
  from launch_terminal_classified [of refEnv nativeRequest 0 bsmFs]
    launch_terminal_classified [of "refEnv\<lparr>launchBs := \<lambda>exe args. Pending\<rparr>" nativeRequest 0 stockFs]
    raw sent running
  show ?thesis by simp
qed

subsection \<open>The exclusivity check\<close>

text \<open>
  C2. When the process inspector reports the game executable as running, the
  subscriber receives exactly one notification, the failure classified
  \<open>BS_ALREADY_RUNNING\<close>, and the filesystem is left exactly as it was: no link is
  removed or created, nothing is backed up or restored.
\<close>

theorem already_running:
  assumes "taskRunning env (BS_EXECUTABLE env) = Inr True"
  shows "delivered (calls (launch env launchOptions now fs)) =
           [Err (CustomError ''Cannot start two instance of Beat Saber for Oculus''
                   BS_ALREADY_RUNNING)]
         \<and> disk (launch env launchOptions now fs) = fs"
  using assms by (simp add: launch_def launchAsync_def fromError_def)

theorem already_running_witness:
  "taskRunning (refEnv\<lparr>taskRunning := \<lambda>exe. Inr True\<rparr>)
     (BS_EXECUTABLE (refEnv\<lparr>taskRunning := \<lambda>exe. Inr True\<rparr>)) = Inr True
   \<and> delivered (calls (launch (refEnv\<lparr>taskRunning := \<lambda>exe. Inr True\<rparr>) managedRequest 0 stockFs)) =
       [Err (CustomError ''Cannot start two instance of Beat Saber for Oculus''
               BS_ALREADY_RUNNING)]
   \<and> disk (launch (refEnv\<lparr>taskRunning := \<lambda>exe. Inr True\<rparr>) managedRequest 0 stockFs) = stockFs"
  using already_running [of "refEnv\<lparr>taskRunning := \<lambda>exe. Inr True\<rparr>" managedRequest 0 stockFs]
  by simp

subsection \<open>Only links of the application are removed\<close>

text \<open>
  C3. \<open>deleteBsSymlinks\<close> adds and alters nothing, and every entry it removes is the
  entry of a link of the library root that passed the three tests of the scan: it is a
  junction, its name starts with \<open>OCULUS_BS_DIR\<close>, and \<^verbatim>\<open>metadata.config\<close> is among
  the contents read through it. An entry without the marker therefore stays, even when
  its name matches; no link that the application does not own is deleted.
\<close>

theorem deleteBsSymlinks_only_owned:
  assumes "deleteBsSymlinks env now fs = (r, fs1)"
  shows "set fs1 \<subseteq> set fs
       \<and> (\<forall>k n. (k, n) \<in> set fs \<and> (k, n) \<notin> set fs1 \<longrightarrow>
            (\<exists>lib name. awaitOculusLib env now = Some lib \<and> ownedLink env fs lib name
                \<and> lresolve fs (path_join [lib, [name]]) = Some k))"
proof -
  from deleteBsSymlinks_cases [OF assms] show ?thesis
  proof
    assume "fs1 = fs \<and> (\<exists>e. r = Inl e)"
    then show ?thesis by simp
  next
    assume "\<exists>lib names kept. awaitOculusLib env now = Some lib \<and> pathExists fs (Some lib)
            \<and> readdir fs lib = Inr names
            \<and> keepMarked fs lib (bsSymlinks env fs lib names) = Inr kept
            \<and> unlinkAll fs (map (\<lambda>name. path_join [lib, [name]]) kept) = (r, fs1)"
    then obtain lib names kept where lib: "awaitOculusLib env now = Some lib"
      and kept: "keepMarked fs lib (bsSymlinks env fs lib names) = Inr kept"
      and run: "unlinkAll fs (map (\<lambda>name. path_join [lib, [name]]) kept) = (r, fs1)"
      by blast
    have owned: "ownedLink env fs lib name" if "name \<in> set kept" for name
      using keepMarked_sound [OF kept that]
      by (auto simp: ownedLink_def bsSymlinks_def)
    have "\<exists>lib name. awaitOculusLib env now = Some lib \<and> ownedLink env fs lib name
                \<and> lresolve fs (path_join [lib, [name]]) = Some k"
      if "(k, n) \<in> set fs" "(k, n) \<notin> set fs1" for k n
      using unlinkAll_removed [OF run that] lib owned by auto
    with unlinkAll_le [OF run] show ?thesis by blast
  qed
qed

text \<open>The link of the application goes; the link of the user, whose name matches too,
  stays.\<close>

theorem deleteBsSymlinks_only_owned_witness:
  "deleteBsSymlinks refEnv 0 mixedFs = (Inr (), filter (\<lambda>(q, n). q \<noteq> canonicalDir) mixedFs)
   \<and> set (filter (\<lambda>(q, n). q \<noteq> canonicalDir) mixedFs) \<subseteq> set mixedFs
   \<and> (canonicalDir, Junction bsmVersion) \<in> set mixedFs
   \<and> (canonicalDir, Junction bsmVersion) \<notin> set (filter (\<lambda>(q, n). q \<noteq> canonicalDir) mixedFs)
   \<and> (\<exists>lib name. awaitOculusLib refEnv 0 = Some lib \<and> ownedLink refEnv mixedFs lib name
          \<and> lresolve mixedFs (path_join [lib, [name]]) = Some canonicalDir)
   \<and> (oculusSoftware @ [''hyperbolic-magnetism-beat-saber-mods''], Junction [''C:'', ''Mods''])
        \<in> set (filter (\<lambda>(q, n). q \<noteq> canonicalDir) mixedFs)"
proof -
  have there: "(canonicalDir, Junction bsmVersion) \<in> set mixedFs"
    by (simp add: mixedFs_def crashedFs_def)
  have gone: "(canonicalDir, Junction bsmVersion) \<notin> set (filter (\<lambda>(q, n). q \<noteq> canonicalDir) mixedFs)"
    by simp
  have kept: "(oculusSoftware @ [''hyperbolic-magnetism-beat-saber-mods''], Junction [''C:'', ''Mods''])
        \<in> set (filter (\<lambda>(q, n). q \<noteq> canonicalDir) mixedFs)"
    by (simp add: mixedFs_def canonicalDir_def)
  from deleteBsSymlinks_only_owned [OF mixed_cleaned] there gone kept mixed_cleaned
  show ?thesis by blast
qed

subsection \<open>Removing twice\<close>

text \<open>
  C4 (amended). A second call of \<open>deleteBsSymlinks\<close> in a row, when the library has not
  been discovered between the two calls (the second wait yields a library only if the
  first did), never changes the filesystem, whatever the first call returned. It
  returns without error whenever its scan goes through, and a call in a state where the
  scan goes through and no link of the application is left is a no-op, not an error. A
  call whose scan fails rejects and changes nothing, and so does the call after it.
\<close>

theorem deleteBsSymlinks_twice:
  assumes first: "deleteBsSymlinks env now fs = (r1, fs1)"
    and order: "now \<le> later"
    and same: "awaitOculusLib env later \<noteq> None \<longrightarrow> awaitOculusLib env now \<noteq> None"
  shows "snd (deleteBsSymlinks env later fs1) = fs1
       \<and> (scanOk env later fs1 \<longrightarrow> deleteBsSymlinks env later fs1 = (Inr (), fs1))
       \<and> (scanOk env now fs \<and> (\<forall>lib name. awaitOculusLib env now = Some lib \<longrightarrow> \<not> ownedLink env fs lib name)
            \<longrightarrow> deleteBsSymlinks env now fs = (Inr (), fs))
       \<and> (\<not> scanOk env now fs \<longrightarrow>
            (\<exists>e. r1 = Inl e) \<and> fs1 = fs \<and> (\<exists>e. deleteBsSymlinks env later fs1 = (Inl e, fs1)))"
proof -
  have answer: "awaitOculusLib env later = awaitOculusLib env now"
  proof (cases "awaitOculusLib env now")
    case None
    with same show ?thesis by auto
  next
    case (Some lib)
    from await_replay [OF Some order] Some show ?thesis by simp
  qed
  note again = deleteBsSymlinks_same_answer [OF answer] scanOk_same_answer [OF answer]
  have second: "deleteBsSymlinks env now fs1 = (Inr (), fs1)" if ok1: "scanOk env now fs1"
  proof -
    from scanOk_run [OF ok1] obtain lib names1 kept2
      where lib: "awaitOculusLib env now = Some lib" and names1: "readdir fs1 lib = Inr names1"
        and kept2: "keepMarked fs1 lib (bsSymlinks env fs1 lib names1) = Inr kept2"
        and run2: "deleteBsSymlinks env now fs1 =
                     unlinkAll fs1 (map (\<lambda>name. path_join [lib, [name]]) kept2)"
      by blast
    have "kept2 = []"
    proof (cases "scanOk env now fs")
      case True
      from scanOk_run [OF True] lib first obtain names0 kept1
        where "readdir fs lib = Inr names0"
          and "keepMarked fs lib (bsSymlinks env fs lib names0) = Inr kept1"
          and "unlinkAll fs (map (\<lambda>name. path_join [lib, [name]]) kept1) = (r1, fs1)"
        by auto
      then show ?thesis
        using names1 kept2 by (rule rescan_empty)
    next
      case False
      from not_scanOk_run [OF False] first have "fs1 = fs" by auto
      with False ok1 show ?thesis by simp
    qed
    with run2 show ?thesis by simp
  qed
  have unchanged: "snd (deleteBsSymlinks env now fs1) = fs1"
  proof (cases "scanOk env now fs1")
    case True
    with second show ?thesis by simp
  next
    case False
    from not_scanOk_run [OF False] show ?thesis by auto
  qed
  have noop: "deleteBsSymlinks env now fs = (Inr (), fs)"
    if ok: "scanOk env now fs"
      and none: "\<forall>lib name. awaitOculusLib env now = Some lib \<longrightarrow> \<not> ownedLink env fs lib name"
  proof -
    from scanOk_run [OF ok] obtain lib names kept
      where lib: "awaitOculusLib env now = Some lib"
        and kept: "keepMarked fs lib (bsSymlinks env fs lib names) = Inr kept"
        and run: "deleteBsSymlinks env now fs =
                    unlinkAll fs (map (\<lambda>name. path_join [lib, [name]]) kept)"
      by blast
    have "kept = []"
    proof (rule ccontr)
      assume "kept \<noteq> []"
      then obtain name where "name \<in> set kept" by (cases kept) auto
      from keepMarked_sound [OF kept this] have "ownedLink env fs lib name"
        by (auto simp: ownedLink_def bsSymlinks_def)
      with none lib show False by blast
    qed
    with run show ?thesis by simp
  qed
  have failing: "(\<exists>e. r1 = Inl e) \<and> fs1 = fs \<and> (\<exists>e. deleteBsSymlinks env now fs1 = (Inl e, fs1))"
    if bad: "\<not> scanOk env now fs"
  proof -
    from not_scanOk_run [OF bad] first have "(\<exists>e. r1 = Inl e) \<and> fs1 = fs" by auto
    moreover from this bad have "\<not> scanOk env now fs1" by simp
    from not_scanOk_run [OF this] have "\<exists>e. deleteBsSymlinks env now fs1 = (Inl e, fs1)" .
    ultimately show ?thesis by simp
  qed
  from unchanged have c1: "snd (deleteBsSymlinks env later fs1) = fs1"
    by (simp add: again)
  from second have c2: "scanOk env later fs1 \<longrightarrow> deleteBsSymlinks env later fs1 = (Inr (), fs1)"
    by (simp add: again)
  from noop
  have c3: "scanOk env now fs \<and> (\<forall>lib name. awaitOculusLib env now = Some lib \<longrightarrow> \<not> ownedLink env fs lib name)
            \<longrightarrow> deleteBsSymlinks env now fs = (Inr (), fs)"
    by blast
  from failing
  have c4: "\<not> scanOk env now fs \<longrightarrow>
            (\<exists>e. r1 = Inl e) \<and> fs1 = fs \<and> (\<exists>e. deleteBsSymlinks env later fs1 = (Inl e, fs1))"
    by (simp only: again) blast
  from c1 c2 c3 c4 show ?thesis by blast
qed

text \<open>After an interrupted run, the first call removes the link and the second call,
  a second later, finds nothing to do; with the original game installed and no link, a
  call is a no-op; with a link whose target has been deleted, both calls reject.\<close>

theorem deleteBsSymlinks_twice_witness:
  "deleteBsSymlinks refEnv 0 crashedFs = (Inr (), backedUpFs)
   \<and> awaitOculusLib refEnv 0 \<noteq> None
   \<and> scanOk refEnv 1000 backedUpFs
   \<and> deleteBsSymlinks refEnv 1000 backedUpFs = (Inr (), backedUpFs)
   \<and> scanOk refEnv 0 stockFs
   \<and> deleteBsSymlinks refEnv 0 stockFs = (Inr (), stockFs)
   \<and> \<not> scanOk refEnv 0 danglingFs
   \<and> deleteBsSymlinks refEnv 0 danglingFs = (Inl (Error ''ENOENT''), danglingFs)
   \<and> (\<exists>e. deleteBsSymlinks refEnv 1000 danglingFs = (Inl e, danglingFs))"
proof -
  have order: "(0::int) \<le> 1000" by simp
  have known: "awaitOculusLib refEnv 0 \<noteq> None" by code_simp
  then have same: "awaitOculusLib refEnv 1000 \<noteq> None \<longrightarrow> awaitOculusLib refEnv 0 \<noteq> None"
    by simp
  have ok: "scanOk refEnv 1000 backedUpFs" by code_simp
  have ok': "scanOk refEnv 0 stockFs" by code_simp
  have none: "\<forall>lib name. awaitOculusLib refEnv 0 = Some lib \<longrightarrow> \<not> ownedLink refEnv stockFs lib name"
    by (simp add: ownedLink_def stock_no_junction)
  from deleteBsSymlinks_twice [OF crashed_cleaned order same] ok
  have second: "deleteBsSymlinks refEnv 1000 backedUpFs = (Inr (), backedUpFs)"
    by blast
  from deleteBsSymlinks_twice [OF stock_cleaned order same] ok' none
  have noop: "deleteBsSymlinks refEnv 0 stockFs = (Inr (), stockFs)"
    by blast
  have bad: "\<not> scanOk refEnv 0 danglingFs" by code_simp
  from deleteBsSymlinks_twice [OF dangling_cleaned order same] bad
  have again: "\<exists>e. deleteBsSymlinks refEnv 1000 danglingFs = (Inl e, danglingFs)"
    by blast
  from crashed_cleaned known ok second ok' noop bad dangling_cleaned again show ?thesis by simp
qed

text \<open>
  As first stated, the claim also promises that the second call reports no error in any
  state where the library root exists. A link whose name matches and whose target has
  been deleted refutes it: the library root exists, there is nothing to remove, and
  each call rejects with the error of \<^verbatim>\<open>readdir\<close>. So does a library root that exists
  and is not a directory. And the second call does change the filesystem when the first
  wait for the library timed out and the library is discovered before the second wait
  ends: the first call rejects and removes nothing, the second removes the link.
\<close>

theorem deleteBsSymlinks_twice_counterexample:
  "pathExists danglingFs (Some oculusSoftware)
   \<and> awaitOculusLib refEnv 0 = Some oculusSoftware
   \<and> deleteBsSymlinks refEnv 0 danglingFs = (Inl (Error ''ENOENT''), danglingFs)
   \<and> deleteBsSymlinks refEnv (waitEnd refEnv 0) (snd (deleteBsSymlinks refEnv 0 danglingFs)) =
       (Inl (Error ''ENOENT''), danglingFs)
   \<and> pathExists fileRootFs (Some oculusSoftware)
   \<and> deleteBsSymlinks refEnv 0 fileRootFs = (Inl (Error ''ENOTDIR''), fileRootFs)
   \<and> deleteBsSymlinks refEnv (waitEnd refEnv 0) (snd (deleteBsSymlinks refEnv 0 fileRootFs)) =
       (Inl (Error ''ENOTDIR''), fileRootFs)
   \<and> pathExists crashedFs (Some oculusSoftware)
   \<and> deleteBsSymlinks lateDiscoveryEnv 0 crashedFs =
       (Inl (Error ''Oculus library not found, deleteBsSymlinks''), crashedFs)
   \<and> waitEnd lateDiscoveryEnv 0 = 30000
   \<and> deleteBsSymlinks lateDiscoveryEnv (waitEnd lateDiscoveryEnv 0)
         (snd (deleteBsSymlinks lateDiscoveryEnv 0 crashedFs)) = (Inr (), backedUpFs)"
  by code_simp

subsection \<open>Discovery that does not answer\<close>

text \<open>
  C5 (amended). For a request of a version managed by the application, while the game
  is not reported running: when the discovery of the library never answers, or has
  failed, every wait yields \<^verbatim>\<open>null\<close>, and when it has not answered when the wait of the
  preparation times out, that wait yields \<^verbatim>\<open>null\<close>, instead of stalling; whenever the
  wait of the preparation yields \<^verbatim>\<open>null\<close>, \<open>launch\<close> ends with the single error
  \<open>OCULUS_LIB_NOT_FOUND\<close> and leaves the filesystem as it was. The two waits of a
  launch, that of the cleanup and then that of the preparation, have returned after
  sixty seconds at most.
\<close>

theorem discovery_fallback_managed:
  assumes "\<not> oculus (version launchOptions)"
    and "taskRunning env (BS_EXECUTABLE env) \<noteq> Inr True"
  shows "(tryGetGameFolder env [OCULUS_BS_DIR env, OCULUS_BS_BACKUP_DIR env] = Pending
            \<longrightarrow> (\<forall>t. awaitOculusLib env t = None))
       \<and> (\<forall>e. tryGetGameFolder env [OCULUS_BS_DIR env, OCULUS_BS_BACKUP_DIR env] = Rejected e
            \<longrightarrow> (\<forall>t. awaitOculusLib env t = None))
       \<and> (waitEnd env now + sToMs 30 \<le> fedAt env \<longrightarrow> awaitOculusLib env (waitEnd env now) = None)
       \<and> (awaitOculusLib env (waitEnd env now) = None \<longrightarrow>
            delivered (calls (launch env launchOptions now fs)) =
              [Err (CustomError ''No Oculus library found'' OCULUS_LIB_NOT_FOUND)]
            \<and> disk (launch env launchOptions now fs) = fs)
       \<and> waitEnd env (waitEnd env now) \<le> now + 2 * sToMs 30"
proof -
  have "delivered (calls (launch env launchOptions now fs)) =
              [Err (CustomError ''No Oculus library found'' OCULUS_LIB_NOT_FOUND)]
            \<and> disk (launch env launchOptions now fs) = fs"
    if none: "awaitOculusLib env (waitEnd env now) = None"
  proof -
    from waitEnd_bounds [of now env] have "now \<le> waitEnd env now" by simp
    with none have "awaitOculusLib env now = None" by (rule await_earlier)
    then have c: "deleteBsSymlinks env now fs =
        (Inl (Error ''Oculus library not found, deleteBsSymlinks''), fs)"
      by (simp add: deleteBsSymlinks_def)
    from none assms(1) have p: "prepare env launchOptions (waitEnd env now) fs =
        (Inl (Error ''No Oculus library found''), fs)"
      by (simp add: prepare_def prepareDowngradedVersion_def)
    from launch_after_prepare(1,2) [OF assms(2) c p] show ?thesis by simp
  qed
  moreover have "waitEnd env (waitEnd env now) \<le> now + 2 * sToMs 30"
    using waitEnd_bounds [of now env] waitEnd_bounds [of "waitEnd env now" env] by simp
  moreover have "awaitOculusLib env (waitEnd env now) = None"
    if "waitEnd env now + sToMs 30 \<le> fedAt env"
    using that by (simp add: awaitOculusLib_def split: option.splits)
  ultimately show ?thesis
    by (simp add: awaitOculusLib_def oculusLib_subject_def)
qed

theorem discovery_fallback_managed_witness:
  "tryGetGameFolder slowDiscoveryEnv
     [OCULUS_BS_DIR slowDiscoveryEnv, OCULUS_BS_BACKUP_DIR slowDiscoveryEnv] = Pending
   \<and> awaitOculusLib slowDiscoveryEnv 0 = None
   \<and> delivered (calls (launch slowDiscoveryEnv managedRequest 0 stockFs)) =
       [Err (CustomError ''No Oculus library found'' OCULUS_LIB_NOT_FOUND)]
   \<and> disk (launch slowDiscoveryEnv managedRequest 0 stockFs) = stockFs
   \<and> tryGetGameFolder noLibraryEnv
         [OCULUS_BS_DIR noLibraryEnv, OCULUS_BS_BACKUP_DIR noLibraryEnv] = Rejected (Error ''EPERM'')
   \<and> awaitOculusLib noLibraryEnv 0 = None
   \<and> delivered (calls (launch noLibraryEnv managedRequest 0 stockFs)) =
       [Err (CustomError ''No Oculus library found'' OCULUS_LIB_NOT_FOUND)]
   \<and> disk (launch noLibraryEnv managedRequest 0 stockFs) = stockFs"
proof -
  have managed: "\<not> oculus (version managedRequest)"
    by (simp add: managedRequest_def)
  have notrun: "taskRunning slowDiscoveryEnv (BS_EXECUTABLE slowDiscoveryEnv) \<noteq> Inr True"
    by (simp add: slowDiscoveryEnv_def refEnv_def)
  have notrun': "taskRunning noLibraryEnv (BS_EXECUTABLE noLibraryEnv) \<noteq> Inr True"
    by (simp add: noLibraryEnv_def refEnv_def)
  have pending: "tryGetGameFolder slowDiscoveryEnv
     [OCULUS_BS_DIR slowDiscoveryEnv, OCULUS_BS_BACKUP_DIR slowDiscoveryEnv] = Pending"
    by (simp add: slowDiscoveryEnv_def)
  have rejected: "tryGetGameFolder noLibraryEnv
     [OCULUS_BS_DIR noLibraryEnv, OCULUS_BS_BACKUP_DIR noLibraryEnv] = Rejected (Error ''EPERM'')"
    by (simp add: noLibraryEnv_def)
  from discovery_fallback_managed [OF managed notrun, of 0 stockFs] pending
  have slow: "awaitOculusLib slowDiscoveryEnv 0 = None
   \<and> delivered (calls (launch slowDiscoveryEnv managedRequest 0 stockFs)) =
       [Err (CustomError ''No Oculus library found'' OCULUS_LIB_NOT_FOUND)]
   \<and> disk (launch slowDiscoveryEnv managedRequest 0 stockFs) = stockFs"
    by simp
  from discovery_fallback_managed [OF managed notrun', of 0 stockFs] rejected
  have failed: "awaitOculusLib noLibraryEnv 0 = None
   \<and> delivered (calls (launch noLibraryEnv managedRequest 0 stockFs)) =
       [Err (CustomError ''No Oculus library found'' OCULUS_LIB_NOT_FOUND)]
   \<and> disk (launch noLibraryEnv managedRequest 0 stockFs) = stockFs"
    by simp
  from pending slow rejected failed show ?thesis by simp
qed

text \<open>
  As first stated, the claim holds for every request. For the platform's own version the
  preparation never consults the discovery: with the discovery still pending, the game
  is launched. And for a managed version, a discovery that has not answered within the
  thirty seconds of the first wait and answers during the second lets the launch go on.
\<close>

theorem discovery_fallback_counterexample:
  "tryGetGameFolder slowDiscoveryEnv
     [OCULUS_BS_DIR slowDiscoveryEnv, OCULUS_BS_BACKUP_DIR slowDiscoveryEnv] = Pending
   \<and> awaitOculusLib slowDiscoveryEnv 0 = None
   \<and> oculus (version nativeRequest)
   \<and> delivered (calls (launch slowDiscoveryEnv nativeRequest 0 stockFs)) =
       [Next BS_LAUNCHING, Complete]
   \<and> awaitOculusLib lateDiscoveryEnv 0 = None
   \<and> waitEnd lateDiscoveryEnv 0 = 30000
   \<and> \<not> oculus (version managedRequest)
   \<and> delivered (calls (launch lateDiscoveryEnv managedRequest 0 stockFs)) =
       [Next BS_LAUNCHING, Complete]"
  by code_simp

subsection \<open>The link of a managed version\<close>

text \<open>
  C6 (amended). For a request of a managed version, while the game is not reported
  running, once the backup step has succeeded and the version repository has resolved
  the target: if the canonical place is free, preparation adds exactly one entry, the
  junction from the canonical place to the target, and returns the canonical path
  (no marker is written: the link shows \<^verbatim>\<open>metadata.config\<close> only when the target
  holds it); if the place is taken, \<open>launch\<close> ends with the error of \<^verbatim>\<open>symlink\<close>
  classified \<open>OCULUS_LIB_NOT_FOUND\<close> and the filesystem is the one the backup step left.
\<close>

theorem managed_link_creation:
  assumes managed: "\<not> oculus (version launchOptions)"
    and notrun: "taskRunning env (BS_EXECUTABLE env) \<noteq> Inr True"
    and cleaned: "deleteBsSymlinks env now fs = (r, fs0)"
    and lib: "awaitOculusLib env (waitEnd env now) = Some lib"
    and backup: "backupOriginalBeatSaber env fs0 = (Inr (), fs1)"
    and target: "getInstalledVersionPath env (version launchOptions) = Inr target"
    and place: "lresolve fs1 (path_join [lib, [OCULUS_BS_DIR env]]) = Some k"
  shows "(node_at fs1 k = None \<longrightarrow>
            prepareDowngradedVersion env launchOptions (waitEnd env now) fs0 =
              (Inr (path_join [lib, [OCULUS_BS_DIR env]]), fs1 @ [(k, Junction target)])
            \<and> disk (launch env launchOptions now fs) = fs1 @ [(k, Junction target)]
            \<and> isJunction (disk (launch env launchOptions now fs)) (path_join [lib, [OCULUS_BS_DIR env]]))
       \<and> (node_at fs1 k \<noteq> None \<longrightarrow>
            delivered (calls (launch env launchOptions now fs)) =
              [Err (CustomError ''EEXIST'' OCULUS_LIB_NOT_FOUND)]
            \<and> disk (launch env launchOptions now fs) = fs1)"
proof (cases "node_at fs1 k = None")
  case True
  from prepareDowngradedVersion_link(1) [OF lib backup target place True]
  have pd: "prepareDowngradedVersion env launchOptions (waitEnd env now) fs0 =
              (Inr (path_join [lib, [OCULUS_BS_DIR env]]), fs1 @ [(k, Junction target)])" .
  with managed have p: "prepare env launchOptions (waitEnd env now) fs0 =
      (Inr (Some (path_join [lib, [OCULUS_BS_DIR env]])), fs1 @ [(k, Junction target)])"
    by (simp add: prepare_def)
  from launch_after_prepare(1) [OF notrun cleaned p]
  have "disk (launch env launchOptions now fs) = fs1 @ [(k, Junction target)]" .
  with pd isJunction_new_link [OF place True] True show ?thesis by simp
next
  case False
  from prepareDowngradedVersion_link(2) [OF lib backup target place False] managed
  have p: "prepare env launchOptions (waitEnd env now) fs0 = (Inl (Error ''EEXIST''), fs1)"
    by (simp add: prepare_def)
  from launch_after_prepare(1,2) [OF notrun cleaned p] False show ?thesis by simp
qed

theorem managed_link_creation_witness:
  "backupOriginalBeatSaber refEnv stockFs = (Inr (), backedUpFs)
   \<and> node_at backedUpFs canonicalDir = None
   \<and> prepareDowngradedVersion refEnv managedRequest (waitEnd refEnv 0) stockFs =
       (Inr (path_join [oculusSoftware, [OCULUS_BS_DIR refEnv]]),
        backedUpFs @ [(canonicalDir, Junction bsmVersion)])
   \<and> disk (launch refEnv managedRequest 0 stockFs) =
       backedUpFs @ [(canonicalDir, Junction bsmVersion)]
   \<and> isJunction (disk (launch refEnv managedRequest 0 stockFs))
       (path_join [oculusSoftware, [OCULUS_BS_DIR refEnv]])
   \<and> node_at danglingFs canonicalDir \<noteq> None
   \<and> delivered (calls (launch refEnv managedRequest 0 danglingFs)) =
       [Err (CustomError ''EEXIST'' OCULUS_LIB_NOT_FOUND)]
   \<and> disk (launch refEnv managedRequest 0 danglingFs) = danglingFs"
proof -
  have managed: "\<not> oculus (version managedRequest)"
    by (simp add: managedRequest_def)
  have notrun: "taskRunning refEnv (BS_EXECUTABLE refEnv) \<noteq> Inr True"
    by (simp add: refEnv_def)
  have lib: "awaitOculusLib refEnv (waitEnd refEnv 0) = Some oculusSoftware"
    by code_simp
  have target: "getInstalledVersionPath refEnv (version managedRequest) = Inr bsmVersion"
    by (simp add: refEnv_def)
  have place: "lresolve backedUpFs (path_join [oculusSoftware, [OCULUS_BS_DIR refEnv]]) =
      Some canonicalDir"
    by code_simp
  have free: "node_at backedUpFs canonicalDir = None"
    by code_simp
  have backup': "backupOriginalBeatSaber refEnv danglingFs = (Inr (), danglingFs)"
    by code_simp
  have place': "lresolve danglingFs (path_join [oculusSoftware, [OCULUS_BS_DIR refEnv]]) =
      Some canonicalDir"
    by code_simp
  have taken: "node_at danglingFs canonicalDir \<noteq> None"
    by code_simp
  from managed_link_creation [OF managed notrun stock_cleaned lib stock_backed_up target place]
    managed_link_creation [OF managed notrun dangling_cleaned lib backup' target place']
    free taken stock_backed_up
  show ?thesis by blast
qed

text \<open>
  As first stated, the claim has preparation write the marker and fail with an error
  kind of its own for link creation. With a stale link at the canonical place, the
  failure is classified \<open>OCULUS_LIB_NOT_FOUND\<close>, as every failure of preparation is;
  and with a version folder that holds no marker, the launch succeeds and the link
  shows none.
\<close>

theorem managed_link_creation_counterexample:
  "node_at danglingFs canonicalDir =
     Some (Junction [''C:'', ''BSManager'', ''BSInstances'', ''1.28.0''])
   \<and> delivered (calls (launch refEnv managedRequest 0 danglingFs)) =
       [Err (CustomError ''EEXIST'' OCULUS_LIB_NOT_FOUND)]
   \<and> delivered (calls (launch refEnv managedRequest 0 bareFs)) = [Next BS_LAUNCHING, Complete]
   \<and> disk (launch refEnv managedRequest 0 bareFs) = bareFs @ [(canonicalDir, Junction bsmVersion)]
   \<and> readdir (disk (launch refEnv managedRequest 0 bareFs)) canonicalDir =
       Inr [''Beat Saber.exe'']"
  by code_simp

subsection \<open>A backup that is already there\<close>

text \<open>
  C7 (amended). For a request of a managed version, while the game is not reported
  running and the library is known. When the Oculus service finds no canonical folder
  (the stale link has been removed by the cleanup, or was never made), the backup step
  is skipped without error, whether or not a backup exists, and once the target is
  resolved and the canonical place is free the launch goes on with the link added and
  every other entry, the backup and its contents among them, as it was. When a canonical
  folder is found and the backup place is taken, the rename is refused: the backup is
  not overwritten, nothing changes, and \<open>launch\<close> ends with that error classified
  \<open>OCULUS_LIB_NOT_FOUND\<close>. When a canonical folder is found and the backup place is free,
  the backup is made by rename: the entries at and below the canonical place are re-keyed
  to the backup place and nothing is left at the canonical place.
\<close>

theorem managed_with_existing_backup:
  assumes managed: "\<not> oculus (version launchOptions)"
    and notrun: "taskRunning env (BS_EXECUTABLE env) \<noteq> Inr True"
    and cleaned: "deleteBsSymlinks env now fs = (r, fs0)"
    and lib: "awaitOculusLib env (waitEnd env now) = Some lib"
    and folder: "getGameFolder env fs0 (OCULUS_BS_DIR env) = Inr folder"
  shows "(\<not> truthy folder \<longrightarrow>
            backupOriginalBeatSaber env fs0 = (Inr (), fs0)
            \<and> (\<forall>target k.
                  getInstalledVersionPath env (version launchOptions) = Inr target
                  \<and> lresolve fs0 (path_join [lib, [OCULUS_BS_DIR env]]) = Some k
                  \<and> node_at fs0 k = None \<longrightarrow>
                    disk (launch env launchOptions now fs) = fs0 @ [(k, Junction target)]
                    \<and> (\<forall>q. q \<noteq> k \<longrightarrow>
                          node_at (disk (launch env launchOptions now fs)) q = node_at fs0 q)
                    \<and> delivered (calls (launch env launchOptions now fs)) =
                        (if pathExists (fs0 @ [(k, Junction target)])
                              (Some (path_join [path_join [lib, [OCULUS_BS_DIR env]],
                                                [BS_EXECUTABLE env]]))
                         then Next BS_LAUNCHING #
                                (case launchBs env
                                        (path_join [path_join [lib, [OCULUS_BS_DIR env]],
                                                    [BS_EXECUTABLE env]])
                                        (buildBsLaunchArgs env launchOptions) of
                                   Rejected err \<Rightarrow> [Err (CustomError (message err) BS_EXIT_ERROR)]
                                 | Resolved exitCode \<Rightarrow> [Complete]
                                 | Pending \<Rightarrow> [])
                         else [Err (CustomError
                                 (''BS Path not exist '' @ pathString (path_join [lib, [OCULUS_BS_DIR env]]))
                                 BS_NOT_FOUND)])))
       \<and> (\<forall>bsFolder kn.
             folder = Some bsFolder \<and> bsFolder \<noteq> []
             \<and> lresolve fs0 (path_join [bsFolder, [''..''], [OCULUS_BS_BACKUP_DIR env]]) = Some kn
             \<and> node_at fs0 kn \<noteq> None \<longrightarrow>
               (\<exists>e. backupOriginalBeatSaber env fs0 = (Inl e, fs0)
                  \<and> delivered (calls (launch env launchOptions now fs)) =
                      [Err (CustomError (message e) OCULUS_LIB_NOT_FOUND)])
               \<and> disk (launch env launchOptions now fs) = fs0)
       \<and> (\<forall>bsFolder ko kn.
             folder = Some bsFolder \<and> bsFolder \<noteq> []
             \<and> lresolve fs0 bsFolder = Some ko \<and> ko \<noteq> [] \<and> map_of fs0 ko \<noteq> None
             \<and> lresolve fs0 (path_join [bsFolder, [''..''], [OCULUS_BS_BACKUP_DIR env]]) = Some kn
             \<and> node_at fs0 kn = None \<and> \<not> prefix ko kn \<longrightarrow>
               backupOriginalBeatSaber env fs0 = (Inr (), map (\<lambda>(k, n). (rekey ko kn k, n)) fs0)
               \<and> map_of (map (\<lambda>(k, n). (rekey ko kn k, n)) fs0) kn = map_of fs0 ko
               \<and> map_of (map (\<lambda>(k, n). (rekey ko kn k, n)) fs0) ko = None)"
proof (intro conjI allI impI)
  assume falsy: "\<not> truthy folder"
  from backup_skipped [OF folder falsy]
  show "backupOriginalBeatSaber env fs0 = (Inr (), fs0)" .
next
  fix target k
  assume falsy: "\<not> truthy folder"
    and a: "getInstalledVersionPath env (version launchOptions) = Inr target
            \<and> lresolve fs0 (path_join [lib, [OCULUS_BS_DIR env]]) = Some k
            \<and> node_at fs0 k = None"
  then have target: "getInstalledVersionPath env (version launchOptions) = Inr target"
    and place: "lresolve fs0 (path_join [lib, [OCULUS_BS_DIR env]]) = Some k"
    and free: "node_at fs0 k = None"
    by simp_all
  note skipped = backup_skipped [OF folder falsy]
  from prepareDowngradedVersion_link(1) [OF lib skipped target place free] managed
  have p: "prepare env launchOptions (waitEnd env now) fs0 =
      (Inr (Some (path_join [lib, [OCULUS_BS_DIR env]])), fs0 @ [(k, Junction target)])"
    by (simp add: prepare_def)
  from launch_after_prepare(1) [OF notrun cleaned p]
  show d: "disk (launch env launchOptions now fs) = fs0 @ [(k, Junction target)]" .
  from launch_after_prepare(2) [OF notrun cleaned p]
  show "delivered (calls (launch env launchOptions now fs)) =
          (if pathExists (fs0 @ [(k, Junction target)])
                (Some (path_join [path_join [lib, [OCULUS_BS_DIR env]], [BS_EXECUTABLE env]]))
           then Next BS_LAUNCHING #
                  (case launchBs env
                          (path_join [path_join [lib, [OCULUS_BS_DIR env]], [BS_EXECUTABLE env]])
                          (buildBsLaunchArgs env launchOptions) of
                     Rejected err \<Rightarrow> [Err (CustomError (message err) BS_EXIT_ERROR)]
                   | Resolved exitCode \<Rightarrow> [Complete]
                   | Pending \<Rightarrow> [])
           else [Err (CustomError
                   (''BS Path not exist '' @ pathString (path_join [lib, [OCULUS_BS_DIR env]]))
                   BS_NOT_FOUND)])"
    by simp
  fix q
  assume "q \<noteq> k"
  with d show "node_at (disk (launch env launchOptions now fs)) q = node_at fs0 q"
    by (simp add: node_at_append_other)
next
  fix bsFolder kn
  assume a: "folder = Some bsFolder \<and> bsFolder \<noteq> []
             \<and> lresolve fs0 (path_join [bsFolder, [''..''], [OCULUS_BS_BACKUP_DIR env]]) = Some kn
             \<and> node_at fs0 kn \<noteq> None"
  with folder have found: "getGameFolder env fs0 (OCULUS_BS_DIR env) = Inr (Some bsFolder)"
    and ne: "bsFolder \<noteq> []"
    and slot: "lresolve fs0 (path_join [bsFolder, [''..''], [OCULUS_BS_BACKUP_DIR env]]) = Some kn"
    and taken: "node_at fs0 kn \<noteq> None"
    by simp_all
  from backup_refused [OF found ne slot taken] obtain e
    where e: "backupOriginalBeatSaber env fs0 = (Inl e, fs0)" by blast
  from prepareDowngradedVersion_backup_failed [OF lib e] managed
  have p: "prepare env launchOptions (waitEnd env now) fs0 = (Inl e, fs0)"
    by (simp add: prepare_def)
  from launch_after_prepare(2) [OF notrun cleaned p] e
  show "\<exists>e. backupOriginalBeatSaber env fs0 = (Inl e, fs0)
          \<and> delivered (calls (launch env launchOptions now fs)) =
              [Err (CustomError (message e) OCULUS_LIB_NOT_FOUND)]"
    by auto
  from launch_after_prepare(1) [OF notrun cleaned p]
  show "disk (launch env launchOptions now fs) = fs0" .
next
  fix bsFolder ko kn
  assume a: "folder = Some bsFolder \<and> bsFolder \<noteq> []
             \<and> lresolve fs0 bsFolder = Some ko \<and> ko \<noteq> [] \<and> map_of fs0 ko \<noteq> None
             \<and> lresolve fs0 (path_join [bsFolder, [''..''], [OCULUS_BS_BACKUP_DIR env]]) = Some kn
             \<and> node_at fs0 kn = None \<and> \<not> prefix ko kn"
  with folder have found: "getGameFolder env fs0 (OCULUS_BS_DIR env) = Inr (Some bsFolder)"
    and ne: "bsFolder \<noteq> []" and ko: "lresolve fs0 bsFolder = Some ko"
    by simp_all
  from a have moved: "rename fs0 bsFolder (path_join [bsFolder, [''..''], [OCULUS_BS_BACKUP_DIR env]]) =
      Inr (map (\<lambda>(k, n). (rekey ko kn k, n)) fs0)"
    by (simp add: rename_success)
  with found ne
  show "backupOriginalBeatSaber env fs0 = (Inr (), map (\<lambda>(k, n). (rekey ko kn k, n)) fs0)"
    by (simp add: backup_performed)
  from rename_result [OF moved] a
  show "map_of (map (\<lambda>(k, n). (rekey ko kn k, n)) fs0) kn = map_of fs0 ko"
    and "map_of (map (\<lambda>(k, n). (rekey ko kn k, n)) fs0) ko = None"
    by auto
qed

text \<open>
  After an interrupted run the cleanup removes the stale link, no canonical folder is
  found and the launch goes through beside the backup. With the original game and a
  backup both present, the launch fails and nothing changes. With the original game and
  no backup, the game is moved aside.
\<close>

theorem managed_with_existing_backup_witness:
  "deleteBsSymlinks refEnv 0 crashedFs = (Inr (), backedUpFs)
   \<and> getGameFolder refEnv backedUpFs (OCULUS_BS_DIR refEnv) = Inr None
   \<and> backupOriginalBeatSaber refEnv backedUpFs = (Inr (), backedUpFs)
   \<and> disk (launch refEnv managedRequest 0 crashedFs) =
       backedUpFs @ [(canonicalDir, Junction bsmVersion)]
   \<and> node_at (disk (launch refEnv managedRequest 0 crashedFs)) backupDir =
       node_at backedUpFs backupDir
   \<and> node_at (disk (launch refEnv managedRequest 0 crashedFs)) (backupDir @ [''Beat Saber.exe'']) =
       node_at backedUpFs (backupDir @ [''Beat Saber.exe''])
   \<and> delivered (calls (launch refEnv managedRequest 0 crashedFs)) = [Next BS_LAUNCHING, Complete]
   \<and> getGameFolder refEnv doubledFs (OCULUS_BS_DIR refEnv) = Inr (Some canonicalDir)
   \<and> node_at doubledFs backupDir \<noteq> None
   \<and> (\<exists>e. backupOriginalBeatSaber refEnv doubledFs = (Inl e, doubledFs)
         \<and> delivered (calls (launch refEnv managedRequest 0 doubledFs)) =
             [Err (CustomError (message e) OCULUS_LIB_NOT_FOUND)])
   \<and> disk (launch refEnv managedRequest 0 doubledFs) = doubledFs
   \<and> getGameFolder refEnv stockFs (OCULUS_BS_DIR refEnv) = Inr (Some canonicalDir)
   \<and> node_at stockFs backupDir = None
   \<and> backupOriginalBeatSaber refEnv stockFs = (Inr (), backedUpFs)
   \<and> map_of backedUpFs backupDir = map_of stockFs canonicalDir
   \<and> map_of backedUpFs canonicalDir = None"
proof -
  have managed: "\<not> oculus (version managedRequest)"
    by (simp add: managedRequest_def)
  have notrun: "taskRunning refEnv (BS_EXECUTABLE refEnv) \<noteq> Inr True"
    by (simp add: refEnv_def)
  have lib: "awaitOculusLib refEnv (waitEnd refEnv 0) = Some oculusSoftware"
    by code_simp
  have target: "getInstalledVersionPath refEnv (version managedRequest) = Inr bsmVersion"
    by (simp add: refEnv_def)
  have absent: "getGameFolder refEnv backedUpFs (OCULUS_BS_DIR refEnv) = Inr None"
    by code_simp
  have place: "lresolve backedUpFs (path_join [oculusSoftware, [OCULUS_BS_DIR refEnv]]) =
      Some canonicalDir"
    by code_simp
  have free: "node_at backedUpFs canonicalDir = None"
    by code_simp
  have exe: "pathExists (backedUpFs @ [(canonicalDir, Junction bsmVersion)])
      (Some (path_join [path_join [oculusSoftware, [OCULUS_BS_DIR refEnv]], [BS_EXECUTABLE refEnv]]))"
    by code_simp
  have spawn: "launchBs refEnv
      (path_join [path_join [oculusSoftware, [OCULUS_BS_DIR refEnv]], [BS_EXECUTABLE refEnv]])
      (buildBsLaunchArgs refEnv managedRequest) = Resolved 0"
    by (simp add: refEnv_def)
  have other: "backupDir \<noteq> canonicalDir" "backupDir @ [''Beat Saber.exe''] \<noteq> canonicalDir"
    by (simp_all add: backupDir_def canonicalDir_def)
  have doubled_cleaned: "deleteBsSymlinks refEnv 0 doubledFs = (Inr (), doubledFs)"
    by code_simp
  have present: "getGameFolder refEnv doubledFs (OCULUS_BS_DIR refEnv) = Inr (Some canonicalDir)"
    by code_simp
  have ne: "canonicalDir \<noteq> []"
    by (simp add: canonicalDir_def)
  have slot: "lresolve doubledFs (path_join [canonicalDir, [''..''], [OCULUS_BS_BACKUP_DIR refEnv]]) =
      Some backupDir"
    by code_simp
  have taken: "node_at doubledFs backupDir \<noteq> None"
    by code_simp
  have present': "getGameFolder refEnv stockFs (OCULUS_BS_DIR refEnv) = Inr (Some canonicalDir)"
    by code_simp
  have source: "lresolve stockFs canonicalDir = Some canonicalDir"
    by code_simp
  have there: "map_of stockFs canonicalDir \<noteq> None"
    by code_simp
  have slot': "lresolve stockFs (path_join [canonicalDir, [''..''], [OCULUS_BS_BACKUP_DIR refEnv]]) =
      Some backupDir"
    by code_simp
  have free': "node_at stockFs backupDir = None"
    by code_simp
  have apart: "\<not> prefix canonicalDir backupDir"
    by code_simp
  have rekeyed: "map (\<lambda>(k, n). (rekey canonicalDir backupDir k, n)) stockFs = backedUpFs"
    by code_simp
  note crashed = managed_with_existing_backup [OF managed notrun crashed_cleaned lib absent]
  note doubled = managed_with_existing_backup [OF managed notrun doubled_cleaned lib present]
  note stock = managed_with_existing_backup [OF managed notrun stock_cleaned lib present']
  from crashed have skipped: "backupOriginalBeatSaber refEnv backedUpFs = (Inr (), backedUpFs)"
    by simp
  have falsy: "\<not> truthy None"
    by simp
  from crashed falsy target place free
  have "disk (launch refEnv managedRequest 0 crashedFs) =
        backedUpFs @ [(canonicalDir, Junction bsmVersion)]
     \<and> (\<forall>q. q \<noteq> canonicalDir \<longrightarrow>
           node_at (disk (launch refEnv managedRequest 0 crashedFs)) q = node_at backedUpFs q)
     \<and> delivered (calls (launch refEnv managedRequest 0 crashedFs)) =
         (if pathExists (backedUpFs @ [(canonicalDir, Junction bsmVersion)])
               (Some (path_join [path_join [oculusSoftware, [OCULUS_BS_DIR refEnv]],
                                 [BS_EXECUTABLE refEnv]]))
          then Next BS_LAUNCHING #
                 (case launchBs refEnv
                         (path_join [path_join [oculusSoftware, [OCULUS_BS_DIR refEnv]],
                                     [BS_EXECUTABLE refEnv]])
                         (buildBsLaunchArgs refEnv managedRequest) of
                    Rejected err \<Rightarrow> [Err (CustomError (message err) BS_EXIT_ERROR)]
                  | Resolved exitCode \<Rightarrow> [Complete]
                  | Pending \<Rightarrow> [])
          else [Err (CustomError
                  (''BS Path not exist '' @ pathString (path_join [oculusSoftware, [OCULUS_BS_DIR refEnv]]))
                  BS_NOT_FOUND)])"
    by blast
  then have linked: "disk (launch refEnv managedRequest 0 crashedFs) =
        backedUpFs @ [(canonicalDir, Junction bsmVersion)]"
    and others: "\<forall>q. q \<noteq> canonicalDir \<longrightarrow>
           node_at (disk (launch refEnv managedRequest 0 crashedFs)) q = node_at backedUpFs q"
    and launched: "delivered (calls (launch refEnv managedRequest 0 crashedFs)) =
        [Next BS_LAUNCHING, Complete]"
    by (rule conjunct1, rule conjunct1 [OF conjunct2], simp add: exe spawn)
  from others other
  have kept: "node_at (disk (launch refEnv managedRequest 0 crashedFs)) backupDir =
       node_at backedUpFs backupDir"
    "node_at (disk (launch refEnv managedRequest 0 crashedFs)) (backupDir @ [''Beat Saber.exe'']) =
       node_at backedUpFs (backupDir @ [''Beat Saber.exe''])"
    by blast+
  from doubled ne slot taken
  have refused: "(\<exists>e. backupOriginalBeatSaber refEnv doubledFs = (Inl e, doubledFs)
         \<and> delivered (calls (launch refEnv managedRequest 0 doubledFs)) =
             [Err (CustomError (message e) OCULUS_LIB_NOT_FOUND)])
     \<and> disk (launch refEnv managedRequest 0 doubledFs) = doubledFs"
    by blast
  from stock ne source there slot' free' apart
  have moved: "backupOriginalBeatSaber refEnv stockFs =
        (Inr (), map (\<lambda>(k, n). (rekey canonicalDir backupDir k, n)) stockFs)
     \<and> map_of (map (\<lambda>(k, n). (rekey canonicalDir backupDir k, n)) stockFs) backupDir =
         map_of stockFs canonicalDir
     \<and> map_of (map (\<lambda>(k, n). (rekey canonicalDir backupDir k, n)) stockFs) canonicalDir = None"
    by blast
  from moved have moved': "backupOriginalBeatSaber refEnv stockFs = (Inr (), backedUpFs)
     \<and> map_of backedUpFs backupDir = map_of stockFs canonicalDir
     \<and> map_of backedUpFs canonicalDir = None"
    by (simp only: rekeyed)
  from crashed_cleaned absent skipped linked kept launched present taken refused present' free' moved'
  show ?thesis by blast
qed

text \<open>
  As first stated, the claim promises success whenever a backup exists. The backup step
  never looks for an earlier backup. With the original game and a backup both present,
  the rename onto the backup is refused and the launch fails. The same happens on the
  second of two requests for a version whose folder holds no marker (its link is not
  removed by the cleanup, and is found as the canonical folder), and after an
  interrupted run when the discovery of the library answers between the two waits (the
  cleanup is skipped, and the stale link is found as the canonical folder).
\<close>

theorem managed_with_existing_backup_counterexample:
  "pathExists doubledFs (Some backupDir)
   \<and> delivered (calls (launch refEnv managedRequest 0 doubledFs)) =
       [Err (CustomError ''EPERM'' OCULUS_LIB_NOT_FOUND)]
   \<and> delivered (calls (launch refEnv managedRequest 0 bareStockFs)) = [Next BS_LAUNCHING, Complete]
   \<and> pathExists (disk (launch refEnv managedRequest 0 bareStockFs)) (Some backupDir)
   \<and> delivered (calls (launch refEnv managedRequest 0
         (disk (launch refEnv managedRequest 0 bareStockFs)))) =
       [Err (CustomError ''EPERM'' OCULUS_LIB_NOT_FOUND)]
   \<and> pathExists crashedFs (Some backupDir)
   \<and> awaitOculusLib lateDiscoveryEnv 0 = None
   \<and> awaitOculusLib lateDiscoveryEnv (waitEnd lateDiscoveryEnv 0) = Some oculusSoftware
   \<and> delivered (calls (launch lateDiscoveryEnv managedRequest 0 crashedFs)) =
       [Err (CustomError ''EPERM'' OCULUS_LIB_NOT_FOUND)]"
  by code_simp

subsection \<open>Restoring the original install\<close>




subsection \<open>A cleanup that fails\<close>

text \<open>
  C9. When the game is not reported running and \<open>deleteBsSymlinks\<close> rejects, \<open>launch\<close>
  logs the error and goes on: preparation runs on the filesystem the cleanup left, then
  the existence check and the spawn, and what the subscriber receives is decided by
  these later steps alone.
\<close>

theorem cleanup_failure_not_fatal:
  assumes "taskRunning env (BS_EXECUTABLE env) \<noteq> Inr True"
    and "deleteBsSymlinks env now fs = (Inl err, fs1)"
  shows "LogError ''Error while deleting BSM symlinks'' err \<in> set (logs (launch env launchOptions now fs))
       \<and> disk (launch env launchOptions now fs) = snd (prepare env launchOptions (waitEnd env now) fs1)
       \<and> delivered (calls (launch env launchOptions now fs)) =
           (case prepare env launchOptions (waitEnd env now) fs1 of
              (Inl e, fs2) \<Rightarrow> [Err (CustomError (message e) OCULUS_LIB_NOT_FOUND)]
            | (Inr None, fs2) \<Rightarrow> [Err (CustomError ''ERR_INVALID_ARG_TYPE'' UNKNOWN_ERROR)]
            | (Inr (Some bsPath), fs2) \<Rightarrow>
                if pathExists fs2 (Some (path_join [bsPath, [BS_EXECUTABLE env]]))
                then Next BS_LAUNCHING #
                       (case launchBs env (path_join [bsPath, [BS_EXECUTABLE env]])
                               (buildBsLaunchArgs env launchOptions) of
                          Rejected e \<Rightarrow> [Err (CustomError (message e) BS_EXIT_ERROR)]
                        | Resolved exitCode \<Rightarrow> [Complete]
                        | Pending \<Rightarrow> [])
                else [Err (CustomError (''BS Path not exist '' @ pathString bsPath) BS_NOT_FOUND)])"
proof -
  obtain prepared fs2 where p: "prepare env launchOptions (waitEnd env now) fs1 = (prepared, fs2)"
    by (cases "prepare env launchOptions (waitEnd env now) fs1") auto
  from launch_after_prepare [OF assms p] p show ?thesis by simp
qed

text \<open>The library root is unknown, the cleanup rejects, and the original game is
  launched all the same.\<close>

theorem cleanup_failure_not_fatal_witness:
  "deleteBsSymlinks noLibraryEnv 0 stockFs =
     (Inl (Error ''Oculus library not found, deleteBsSymlinks''), stockFs)
   \<and> LogError ''Error while deleting BSM symlinks''
        (Error ''Oculus library not found, deleteBsSymlinks'')
        \<in> set (logs (launch noLibraryEnv nativeRequest 0 stockFs))
   \<and> disk (launch noLibraryEnv nativeRequest 0 stockFs) = stockFs
   \<and> delivered (calls (launch noLibraryEnv nativeRequest 0 stockFs)) =
       [Next BS_LAUNCHING, Complete]"
proof -
  have notrun: "taskRunning noLibraryEnv (BS_EXECUTABLE noLibraryEnv) \<noteq> Inr True"
    by (simp add: noLibraryEnv_def refEnv_def)
  have cleanup: "deleteBsSymlinks noLibraryEnv 0 stockFs =
     (Inl (Error ''Oculus library not found, deleteBsSymlinks''), stockFs)"
    by code_simp
  have prepared: "prepare noLibraryEnv nativeRequest (waitEnd noLibraryEnv 0) stockFs =
     (Inr (Some (oculusSoftware @ [''hyperbolic-magnetism-beat-saber''])), stockFs)"
    by code_simp
  have exe: "pathExists stockFs
     (Some (path_join [oculusSoftware @ [''hyperbolic-magnetism-beat-saber''],
                       [BS_EXECUTABLE noLibraryEnv]]))"
    by code_simp
  have spawn: "launchBs noLibraryEnv
      (path_join [oculusSoftware @ [''hyperbolic-magnetism-beat-saber''],
                  [BS_EXECUTABLE noLibraryEnv]])
      (buildBsLaunchArgs noLibraryEnv nativeRequest) = Resolved 0"
    by (simp add: noLibraryEnv_def refEnv_def)
  from cleanup_failure_not_fatal [OF notrun cleanup, of nativeRequest] cleanup
  show ?thesis by (simp add: prepared exe spawn)
qed

subsection \<open>A process inspector that fails\<close>

text \<open>
  C10. When the query of the process inspector itself fails, \<open>launch\<close> goes on as it
  does when the inspector answers that the game is not running: the cleanup runs, the
  preparation runs on the filesystem the cleanup left, then the existence check and the
  spawn, and what the subscriber receives is decided by these steps; the error of the
  inspector is not among it.
\<close>

theorem inspector_failure_is_not_running:
  assumes "taskRunning env (BS_EXECUTABLE env) = Inl e"
  shows "launch env launchOptions now fs =
           launch (env\<lparr>taskRunning := \<lambda>exe. Inr False\<rparr>) launchOptions now fs
       \<and> (\<forall>err. fst (deleteBsSymlinks env now fs) = Inl err \<longrightarrow>
             LogError ''Error while deleting BSM symlinks'' err
               \<in> set (logs (launch env launchOptions now fs)))
       \<and> disk (launch env launchOptions now fs) =
           snd (prepare env launchOptions (waitEnd env now) (snd (deleteBsSymlinks env now fs)))
       \<and> delivered (calls (launch env launchOptions now fs)) =
           (case prepare env launchOptions (waitEnd env now) (snd (deleteBsSymlinks env now fs)) of
              (Inl err, fs2) \<Rightarrow> [Err (CustomError (message err) OCULUS_LIB_NOT_FOUND)]
            | (Inr None, fs2) \<Rightarrow> [Err (CustomError ''ERR_INVALID_ARG_TYPE'' UNKNOWN_ERROR)]
            | (Inr (Some bsPath), fs2) \<Rightarrow>
                if pathExists fs2 (Some (path_join [bsPath, [BS_EXECUTABLE env]]))
                then Next BS_LAUNCHING #
                       (case launchBs env (path_join [bsPath, [BS_EXECUTABLE env]])
                               (buildBsLaunchArgs env launchOptions) of
                          Rejected err \<Rightarrow> [Err (CustomError (message err) BS_EXIT_ERROR)]
                        | Resolved exitCode \<Rightarrow> [Complete]
                        | Pending \<Rightarrow> [])
                else [Err (CustomError (''BS Path not exist '' @ pathString bsPath) BS_NOT_FOUND)])"
proof -
  have "launchAsync env launchOptions now fs =
      launchAsync (env\<lparr>taskRunning := \<lambda>exe. Inr False\<rparr>) launchOptions now fs"
    using assms
    by (simp add: launchAsync_def
        cong: prod.case_cong option.case_cong sum.case_cong if_cong)
  then have same: "launch env launchOptions now fs =
      launch (env\<lparr>taskRunning := \<lambda>exe. Inr False\<rparr>) launchOptions now fs"
    by (simp add: launch_def)
  from assms have notrun: "taskRunning env (BS_EXECUTABLE env) \<noteq> Inr True" by simp
  obtain cleaned fs1 where c: "deleteBsSymlinks env now fs = (cleaned, fs1)"
    by (cases "deleteBsSymlinks env now fs") auto
  obtain prepared fs2 where p: "prepare env launchOptions (waitEnd env now) fs1 = (prepared, fs2)"
    by (cases "prepare env launchOptions (waitEnd env now) fs1") auto
  from launch_after_prepare [OF notrun c p] c p same show ?thesis by simp
qed

text \<open>The inspector fails, and a managed version is requested with the original game
  installed: the game is moved aside, the link is made and the game is launched.\<close>

theorem inspector_failure_is_not_running_witness:
  "taskRunning (refEnv\<lparr>taskRunning := \<lambda>exe. Inl (Error ''tasklist failed'')\<rparr>)
     (BS_EXECUTABLE (refEnv\<lparr>taskRunning := \<lambda>exe. Inl (Error ''tasklist failed'')\<rparr>)) =
     Inl (Error ''tasklist failed'')
   \<and> launch (refEnv\<lparr>taskRunning := \<lambda>exe. Inl (Error ''tasklist failed'')\<rparr>) managedRequest 0 stockFs =
       launch (refEnv\<lparr>taskRunning := \<lambda>exe. Inr False\<rparr>) managedRequest 0 stockFs
   \<and> disk (launch (refEnv\<lparr>taskRunning := \<lambda>exe. Inl (Error ''tasklist failed'')\<rparr>)
         managedRequest 0 stockFs) = backedUpFs @ [(canonicalDir, Junction bsmVersion)]
   \<and> delivered (calls (launch (refEnv\<lparr>taskRunning := \<lambda>exe. Inl (Error ''tasklist failed'')\<rparr>)
         managedRequest 0 stockFs)) = [Next BS_LAUNCHING, Complete]"
proof -
  let ?env = "refEnv\<lparr>taskRunning := \<lambda>exe. Inl (Error ''tasklist failed'')\<rparr>"
  have failed: "taskRunning ?env (BS_EXECUTABLE ?env) = Inl (Error ''tasklist failed'')"
    by simp
  have prepared: "prepare refEnv managedRequest (waitEnd refEnv 0) stockFs =
      (Inr (Some canonicalDir), backedUpFs @ [(canonicalDir, Junction bsmVersion)])"
    by code_simp
  have exe: "pathExists (backedUpFs @ [(canonicalDir, Junction bsmVersion)])
      (Some (path_join [canonicalDir, [BS_EXECUTABLE refEnv]]))"
    by code_simp
  have spawn: "launchBs refEnv (path_join [canonicalDir, [BS_EXECUTABLE refEnv]])
      (buildBsLaunchArgs refEnv managedRequest) = Resolved 0"
    by (simp add: refEnv_def)
  from inspector_failure_is_not_running [OF failed, of managedRequest 0 stockFs] failed
  show ?thesis by (auto simp: stock_cleaned prepared exe spawn)
qed

end
